theory Spec2Isabelle
  imports Main "HOL-Library.Sublist"
begin

section \<open>C strings\<close>

text \<open>
  A C string is represented by the bytes in front of its terminating NUL, a possibly
  NULL \<^verbatim>\<open>char *\<close> by a \<^typ>\<open>string option\<close>.  Pointer arithmetic \<^verbatim>\<open>s + n\<close>
  inside a string is \<^term>\<open>drop n s\<close>.  Heap allocation (\<^verbatim>\<open>safemalloc\<close>,
  \<^verbatim>\<open>safestrdup\<close>) is taken to succeed, and \<^verbatim>\<open>log_message\<close> changes nothing
  that the functions below read.
\<close>

definition deref :: "string \<Rightarrow> char" where
  \<comment> \<open>\<^verbatim>\<open>*s\<close>: the first byte, the terminating NUL for the empty string\<close>
  "deref s = (case s of [] \<Rightarrow> CHR 0x00 | c # _ \<Rightarrow> c)"

fun strstr :: "string \<Rightarrow> string \<Rightarrow> nat option" where
  \<comment> \<open>the offset of the first occurrence of the needle, \<^term>\<open>None\<close> for NULL\<close>
  "strstr [] needle = (if needle = [] then Some 0 else None)"
| "strstr (h # hs) needle =
     (if prefix needle (h # hs) then Some 0 else map_option Suc (strstr hs needle))"

section \<open>reverse-proxy.c\<close>

record reversepath =
  path :: string
  url :: string

record config_s =
  reversepath_list :: "reversepath list"
  reversemagic :: bool
  reverseonly :: bool
  bind_address :: "string option"

record conn_s =
  reversepath :: "string option"
  error_number :: "int option"
  error_string :: "string option"
  error_variables :: "(string \<times> string) list"

text \<open>
  \<^verbatim>\<open>reversepath_add\<close> works on the global \<^verbatim>\<open>config\<close>; the model takes it and
  returns it.  A new rule becomes the head of \<^verbatim>\<open>config.reversepath_list\<close>.
\<close>

definition reversepath_add :: "string option \<Rightarrow> string option \<Rightarrow> config_s \<Rightarrow> config_s" where
  "reversepath_add p u config =
     (case u of
        None \<Rightarrow> config
      | Some u' \<Rightarrow>
          if strstr u' ''://'' = None then config
          else if (case p of None \<Rightarrow> False | Some p' \<Rightarrow> deref p' \<noteq> CHR ''/'') then config
          else config\<lparr>reversepath_list :=
                  \<lparr>path = (case p of None \<Rightarrow> ''/'' | Some p' \<Rightarrow> p'), url = u'\<rparr>
                    # reversepath_list config\<rparr>)"

fun reversepath_scan :: "reversepath list \<Rightarrow> string \<Rightarrow> reversepath option" where
  \<comment> \<open>the \<^verbatim>\<open>while (reverse)\<close> loop of \<^verbatim>\<open>reversepath_get\<close>\<close>
  "reversepath_scan [] u = None"
| "reversepath_scan (reverse # next) u =
     (if strstr u (path reverse) = Some 0 then Some reverse else reversepath_scan next u)"

definition reversepath_get :: "config_s \<Rightarrow> string \<Rightarrow> reversepath option" where
  "reversepath_get config u = reversepath_scan (reversepath_list config) u"

text \<open>
  Modelled from the spec: \<^verbatim>\<open>hashmap_entry_by_key\<close> (hashmap.c is not among the
  sources).  The header map is a case-insensitive mapping from header name to raw header
  value; the lookup yields the value of the first entry whose name equals the key up to
  ASCII case, and \<^term>\<open>None\<close> stands for a result that is not positive.
\<close>

type_synonym hashmap_t = "(string \<times> string) list"

definition tolower :: "char \<Rightarrow> char" where
  "tolower c =
     (if 65 \<le> (of_char c :: nat) \<and> (of_char c :: nat) \<le> 90
      then char_of (of_char c + 32 :: nat) else c)"

fun hashmap_entry_by_key :: "hashmap_t \<Rightarrow> string \<Rightarrow> string option" where
  "hashmap_entry_by_key [] key = None"
| "hashmap_entry_by_key ((k, v) # rest) key =
     (if map tolower k = map tolower key then Some v else hashmap_entry_by_key rest key)"

text \<open>
  Modelled from the spec: \<^verbatim>\<open>indicate_http_error\<close> (html-error.c is not among the
  sources).  It records on the connection the status, the title and the key/value detail
  fields of the error response that is sent to the client.
\<close>

definition indicate_http_error ::
    "conn_s \<Rightarrow> int \<Rightarrow> string \<Rightarrow> (string \<times> string) list \<Rightarrow> conn_s" where
  "indicate_http_error connptr number message vars =
     connptr\<lparr>error_number := Some number, error_string := Some message,
             error_variables := error_variables connptr @ vars\<rparr>"

datatype fault = NullDereference | UninitialisedRead | AssertionFailed

datatype 'a pointer = Uninitialised | Null | Ptr 'a

text \<open>
  \<^verbatim>\<open>reverse_rewrite_url\<close>.  The macro \<^verbatim>\<open>REVERSE_COOKIE\<close> (reverse-proxy.h is not
  among the sources) is a parameter.  The local \<^verbatim>\<open>reverse\<close> is declared without an
  initialiser and is assigned only inside \<^verbatim>\<open>if (*url == '/')\<close>; the first component of
  \<open>reverse_lookup\<close> is \<^verbatim>\<open>rewrite_url\<close>, the second is \<^verbatim>\<open>reverse\<close>, as they stand
  after that statement.  The result is the returned pointer together with the connection.
\<close>

definition reverse_lookup ::
    "config_s \<Rightarrow> string \<Rightarrow> hashmap_t \<Rightarrow> string \<Rightarrow> string option \<times> reversepath pointer" where
  "reverse_lookup config REVERSE_COOKIE hashofheaders u =
     (if deref u = CHR ''/'' then
        (case reversepath_get config u of
           Some reverse \<Rightarrow> (Some (url reverse @ drop (length (path reverse)) u), Ptr reverse)
         | None \<Rightarrow>
             if reversemagic config then
               (case hashmap_entry_by_key hashofheaders ''cookie'' of
                  None \<Rightarrow> (None, Null)
                | Some cookie \<Rightarrow>
                    (case strstr cookie (REVERSE_COOKIE @ ''='') of
                       None \<Rightarrow> (None, Null)
                     | Some cookieval \<Rightarrow>
                         (case reversepath_get config
                                 (drop (cookieval + length REVERSE_COOKIE + 1) cookie) of
                            None \<Rightarrow> (None, Null)
                          | Some reverse \<Rightarrow> (Some (url reverse @ drop 1 u), Ptr reverse))))
             else (None, Null))
      else (None, Uninitialised))"

definition reverse_rewrite_url ::
    "config_s \<Rightarrow> string \<Rightarrow> conn_s \<Rightarrow> hashmap_t \<Rightarrow> string \<Rightarrow> fault + (string option \<times> conn_s)" where
  "reverse_rewrite_url config REVERSE_COOKIE connptr hashofheaders u =
     (case reverse_lookup config REVERSE_COOKIE hashofheaders u of
        (rewrite_url, reverse) \<Rightarrow>
          if reverseonly config \<and> rewrite_url = None then
            Inr (None, indicate_http_error connptr 400 ''Bad Request''
                         [(''detail'', ''Request has an invalid URL''), (''url'', u)])
          else if reversemagic config then
            (case reverse of
               Uninitialised \<Rightarrow> Inl UninitialisedRead
             | Null \<Rightarrow> Inl NullDereference
             | Ptr r \<Rightarrow> Inr (rewrite_url, connptr\<lparr>reversepath := Some (path r)\<rparr>))
          else Inr (rewrite_url, connptr))"

section \<open>sock.c\<close>

text \<open>
  The system calls are the environment of \<^verbatim>\<open>sock.c\<close>.  Every call that the code makes
  is appended to a trace together with its return value, and the environment answers a
  call as a function of the trace so far and of the arguments, so that the same call may
  succeed at one time and fail at another.  \<^verbatim>\<open>getaddrinfo\<close> yields \<^term>\<open>None\<close> for a
  return value other than zero and otherwise the list it stores in \<^verbatim>\<open>res\<close>, which holds
  at least one entry; \<^verbatim>\<open>hints\<close> is the same in every call and \<^verbatim>\<open>freeaddrinfo\<close>
  has no effect that is read again.
\<close>

type_synonym sockaddr = string

record addrinfo =
  ai_family :: int
  ai_socktype :: int
  ai_protocol :: int
  ai_addr :: sockaddr

datatype event =
    Getaddrinfo string "string option"
  | Socket int int int int
  | Bind int sockaddr int
  | Connect int sockaddr int
  | Close int

record os =
  sys_getaddrinfo :: "event list \<Rightarrow> string \<Rightarrow> string option \<Rightarrow> (addrinfo \<times> addrinfo list) option"
  sys_socket :: "event list \<Rightarrow> int \<Rightarrow> int \<Rightarrow> int \<Rightarrow> int"
  sys_bind :: "event list \<Rightarrow> int \<Rightarrow> sockaddr \<Rightarrow> int"
  sys_connect :: "event list \<Rightarrow> int \<Rightarrow> sockaddr \<Rightarrow> int"

fun bind_loop ::
    "os \<Rightarrow> int \<Rightarrow> addrinfo \<Rightarrow> addrinfo list \<Rightarrow> event list \<Rightarrow> addrinfo option \<times> event list" where
  \<comment> \<open>the \<^verbatim>\<open>do ... while\<close> of \<^verbatim>\<open>bind_socket\<close>; the result holds \<^verbatim>\<open>res\<close> at its exit\<close>
  "bind_loop os sockfd res [] t =
     (let rc = sys_bind os t sockfd (ai_addr res);
          t' = t @ [Bind sockfd (ai_addr res) rc]
      in if rc = 0 then (Some res, t') else (None, t'))"
| "bind_loop os sockfd res (ai_next # rest) t =
     (let rc = sys_bind os t sockfd (ai_addr res);
          t' = t @ [Bind sockfd (ai_addr res) rc]
      in if rc = 0 then (Some res, t') else bind_loop os sockfd ai_next rest t')"

definition bind_socket :: "os \<Rightarrow> int \<Rightarrow> string \<Rightarrow> event list \<Rightarrow> fault + (int \<times> event list)" where
  "bind_socket os sockfd addr t =
     (if \<not> 0 \<le> sockfd then Inl AssertionFailed
      else if addr = [] then Inl AssertionFailed
      else
        (case sys_getaddrinfo os t addr None of
           None \<Rightarrow> Inr (- 1, t @ [Getaddrinfo addr None])
         | Some (res, rest) \<Rightarrow>
             (case bind_loop os sockfd res rest (t @ [Getaddrinfo addr None]) of
                (None, t') \<Rightarrow> Inr (- 1, t')
              | (Some _, t') \<Rightarrow> Inr (sockfd, t'))))"

datatype flow = Break | Next

definition opensock_connect :: "os \<Rightarrow> int \<Rightarrow> addrinfo \<Rightarrow> event list \<Rightarrow> flow \<times> int \<times> event list" where
  \<comment> \<open>the end of the loop body: \<^verbatim>\<open>connect\<close>, then \<^verbatim>\<open>break\<close> or \<^verbatim>\<open>close\<close>\<close>
  "opensock_connect os sockfd res t =
     (let rc = sys_connect os t sockfd (ai_addr res);
          t' = t @ [Connect sockfd (ai_addr res) rc]
      in if rc = 0 then (Break, sockfd, t') else (Next, sockfd, t' @ [Close sockfd]))"

definition opensock_body ::
    "os \<Rightarrow> config_s \<Rightarrow> string option \<Rightarrow> addrinfo \<Rightarrow> event list
      \<Rightarrow> fault + (flow \<times> int \<times> event list)" where
  \<comment> \<open>one pass through the loop body of \<^verbatim>\<open>opensock\<close>: it ends in \<^verbatim>\<open>break\<close> or at
      the loop condition (\<^verbatim>\<open>continue\<close>, or the end of the body), with \<^verbatim>\<open>sockfd\<close>\<close>
  "opensock_body os config bind_to res t =
     (let sockfd = sys_socket os t (ai_family res) (ai_socktype res) (ai_protocol res);
          t1 = t @ [Socket (ai_family res) (ai_socktype res) (ai_protocol res) sockfd]
      in if sockfd < 0 then Inr (Next, sockfd, t1)
         else
           (case bind_to of
              Some addr \<Rightarrow>
                (case bind_socket os sockfd addr t1 of
                   Inl f \<Rightarrow> Inl f
                 | Inr (r, t2) \<Rightarrow>
                     if r < 0 then Inr (Next, sockfd, t2 @ [Close sockfd])
                     else Inr (opensock_connect os sockfd res t2))
            | None \<Rightarrow>
                (case bind_address config of
                   Some addr \<Rightarrow>
                     (case bind_socket os sockfd addr t1 of
                        Inl f \<Rightarrow> Inl f
                      | Inr (r, t2) \<Rightarrow>
                          if r < 0 then Inr (Next, sockfd, t2 @ [Close sockfd])
                          else Inr (opensock_connect os sockfd res t2))
                 | None \<Rightarrow> Inr (opensock_connect os sockfd res t1))))"

fun opensock_loop ::
    "os \<Rightarrow> config_s \<Rightarrow> string option \<Rightarrow> addrinfo \<Rightarrow> addrinfo list \<Rightarrow> event list
      \<Rightarrow> fault + (addrinfo option \<times> int \<times> event list)" where
  \<comment> \<open>the \<^verbatim>\<open>do ... while ((res = res->ai_next) != NULL)\<close> of \<^verbatim>\<open>opensock\<close>; the
      result holds \<^verbatim>\<open>res\<close> and \<^verbatim>\<open>sockfd\<close> at its exit\<close>
  "opensock_loop os config bind_to res [] t =
     (case opensock_body os config bind_to res t of
        Inl f \<Rightarrow> Inl f
      | Inr (Break, sockfd, t') \<Rightarrow> Inr (Some res, sockfd, t')
      | Inr (Next, sockfd, t') \<Rightarrow> Inr (None, sockfd, t'))"
| "opensock_loop os config bind_to res (ai_next # rest) t =
     (case opensock_body os config bind_to res t of
        Inl f \<Rightarrow> Inl f
      | Inr (Break, sockfd, t') \<Rightarrow> Inr (Some res, sockfd, t')
      | Inr (Next, sockfd, t') \<Rightarrow> opensock_loop os config bind_to ai_next rest t')"

definition digit :: "nat \<Rightarrow> char" where
  \<comment> \<open>the decimal digit \<open>d\<close>, for \<open>d < 10\<close>\<close>
  "digit d = ''0123456789'' ! d"

function decimal :: "nat \<Rightarrow> string" where
  "decimal n = (if n < 10 then [digit n] else decimal (n div 10) @ [digit (n mod 10)])"
  by pat_completeness auto
termination
  by (relation "measure id") auto

declare decimal.simps [simp del]

definition snprintf_d :: "nat \<Rightarrow> int \<Rightarrow> string" where
  \<comment> \<open>what \<^verbatim>\<open>snprintf (buf, len, "%d", n)\<close> leaves in \<^verbatim>\<open>buf\<close>, for \<^verbatim>\<open>len > 0\<close>\<close>
  "snprintf_d len n =
     take (len - 1) (if n < 0 then CHR ''-'' # decimal (nat (- n)) else decimal (nat n))"

definition opensock ::
    "os \<Rightarrow> config_s \<Rightarrow> string \<Rightarrow> int \<Rightarrow> string option \<Rightarrow> event list
      \<Rightarrow> fault + (int \<times> event list)" where
  "opensock os config host port bind_to t =
     (if \<not> 0 < port then Inl AssertionFailed
      else
        (let portstr = snprintf_d 6 port in
         case sys_getaddrinfo os t host (Some portstr) of
           None \<Rightarrow> Inr (- 1, t @ [Getaddrinfo host (Some portstr)])
         | Some (res, rest) \<Rightarrow>
             (case opensock_loop os config bind_to res rest
                     (t @ [Getaddrinfo host (Some portstr)]) of
                Inl f \<Rightarrow> Inl f
              | Inr (None, sockfd, t') \<Rightarrow> Inr (- 1, t')
              | Inr (Some _, sockfd, t') \<Rightarrow> Inr (sockfd, t'))))"

text \<open>
  \<^verbatim>\<open>getpeer_information\<close> calls \<^verbatim>\<open>getpeername\<close>, \<^verbatim>\<open>get_ip_string\<close> and
  \<^verbatim>\<open>getnameinfo\<close> at most once each, so their answers are functions of the arguments.
  \<^verbatim>\<open>getpeername\<close> yields \<^term>\<open>None\<close> for a return value other than zero;
  \<^verbatim>\<open>get_ip_string\<close> (network.c is not among the sources) yields \<^term>\<open>None\<close> for NULL,
  with the buffer as it was, and otherwise the string it has written into the buffer;
  \<^verbatim>\<open>getnameinfo\<close> yields its error code, with the buffer as it was, or the host name
  it has written, with the return value zero.  The macros \<^verbatim>\<open>IP_LENGTH\<close> and \<^verbatim>\<open>HOSTNAME_LENGTH\<close> are parameters.
  The result is the return value with the contents of \<^verbatim>\<open>ipaddr\<close> and \<^verbatim>\<open>string_addr\<close>.
\<close>

record peer_os =
  sys_getpeername :: "int \<Rightarrow> sockaddr option"
  get_ip_string :: "sockaddr \<Rightarrow> nat \<Rightarrow> string option"
  sys_getnameinfo :: "sockaddr \<Rightarrow> nat \<Rightarrow> int + string"

definition strlcpy :: "string \<Rightarrow> string \<Rightarrow> nat \<Rightarrow> string" where
  \<comment> \<open>the destination after \<^verbatim>\<open>strlcpy (dst, src, len)\<close>\<close>
  "strlcpy dst src len = (if len = 0 then dst else take (len - 1) src)"

definition getpeer_information ::
    "peer_os \<Rightarrow> nat \<Rightarrow> nat \<Rightarrow> int \<Rightarrow> string \<Rightarrow> string \<Rightarrow> fault + (int \<times> string \<times> string)" where
  "getpeer_information os IP_LENGTH HOSTNAME_LENGTH fd ipaddr0 string_addr0 =
     (if \<not> 0 \<le> fd then Inl AssertionFailed
      else
        (let ipaddr = [];
             string_addr = strlcpy string_addr0 ''[unknown]'' HOSTNAME_LENGTH
         in case sys_getpeername os fd of
              None \<Rightarrow> Inr (- 1, ipaddr, string_addr)
            | Some sa \<Rightarrow>
                (case get_ip_string os sa IP_LENGTH of
                   None \<Rightarrow> Inr (- 1, ipaddr, string_addr)
                 | Some ip \<Rightarrow>
                     (case sys_getnameinfo os sa HOSTNAME_LENGTH of
                        Inl rc \<Rightarrow> Inr (rc, ip, string_addr)
                      | Inr name \<Rightarrow> Inr (0, ip, name)))))"

section \<open>Observations on a trace of system calls\<close>

fun sockets :: "event list \<Rightarrow> (int \<times> int \<times> int) list" where
  \<comment> \<open>family, type and protocol of the \<^verbatim>\<open>socket\<close> calls, in order\<close>
  "sockets [] = []"
| "sockets (Socket f ty p fd # es) = (f, ty, p) # sockets es"
| "sockets (e # es) = sockets es"

fun connected :: "event list \<Rightarrow> (int \<times> sockaddr) list" where
  \<comment> \<open>the \<^verbatim>\<open>connect\<close> calls that returned zero\<close>
  "connected [] = []"
| "connected (Connect fd a rc # es) = (if rc = 0 then (fd, a) # connected es else connected es)"
| "connected (e # es) = connected es"

fun bind_lookups :: "event list \<Rightarrow> string list" where
  \<comment> \<open>the names resolved by \<^verbatim>\<open>bind_socket\<close>: it alone passes no service\<close>
  "bind_lookups [] = []"
| "bind_lookups (Getaddrinfo node None # es) = node # bind_lookups es"
| "bind_lookups (e # es) = bind_lookups es"

fun track :: "event list \<Rightarrow> int list \<Rightarrow> int list option" where
  \<comment> \<open>the descriptors that are open after the trace, \<^term>\<open>None\<close> when a call uses a
      descriptor that is not open\<close>
  "track [] opened = Some opened"
| "track (Socket f ty p fd # es) opened = track es (if 0 \<le> fd then fd # opened else opened)"
| "track (Bind fd a rc # es) opened = (if fd \<in> set opened then track es opened else None)"
| "track (Connect fd a rc # es) opened = (if fd \<in> set opened then track es opened else None)"
| "track (Close fd # es) opened =
     (if fd \<in> set opened then track es (remove1 fd opened) else None)"
| "track (Getaddrinfo node service # es) opened = track es opened"

definition ai_triple :: "addrinfo \<Rightarrow> int \<times> int \<times> int" where
  "ai_triple res = (ai_family res, ai_socktype res, ai_protocol res)"

text \<open>
  The bind address in effect for a call of \<^verbatim>\<open>opensock\<close>, and what one pass through
  its loop body, and the whole loop, leave in the trace.
\<close>

definition chosen_bind :: "config_s \<Rightarrow> string option \<Rightarrow> string option" where
  "chosen_bind config bind_to = (case bind_to of Some addr \<Rightarrow> Some addr | None \<Rightarrow> bind_address config)"

definition binds_only :: "int \<Rightarrow> event list \<Rightarrow> bool" where
  "binds_only fd es = list_all (\<lambda>e. case e of Bind fd' a rc \<Rightarrow> fd' = fd | _ \<Rightarrow> False) es"

definition pass_events :: "addrinfo \<Rightarrow> string option \<Rightarrow> flow \<Rightarrow> int \<Rightarrow> event list \<Rightarrow> bool" where
  "pass_events res chosen fl sockfd new \<longleftrightarrow>
     sockets new = [ai_triple res] \<and> set (bind_lookups new) \<subseteq> set_option chosen
     \<and> length (bind_lookups new) \<le> 1
     \<and> (case fl of
           Break \<Rightarrow> 0 \<le> sockfd \<and> connected new = [(sockfd, ai_addr res)]
                    \<and> last new = Connect sockfd (ai_addr res) 0 \<and> track new [] = Some [sockfd]
         | Next \<Rightarrow> connected new = [] \<and> track new [] = Some [])"

definition loop_events ::
    "addrinfo list \<Rightarrow> string option \<Rightarrow> addrinfo option \<Rightarrow> int \<Rightarrow> event list \<Rightarrow> nat
      \<Rightarrow> bool" where
  "loop_events cands chosen r sockfd new k \<longleftrightarrow>
     1 \<le> k \<and> k \<le> length cands \<and> sockets new = map ai_triple (take k cands)
     \<and> set (bind_lookups new) \<subseteq> set_option chosen \<and> length (bind_lookups new) \<le> k
     \<and> (case r of
           Some c \<Rightarrow> c = cands ! (k - 1) \<and> 0 \<le> sockfd
                     \<and> connected new = [(sockfd, ai_addr c)]
                     \<and> last new = Connect sockfd (ai_addr c) 0 \<and> track new [] = Some [sockfd]
         | None \<Rightarrow> k = length cands \<and> connected new = [] \<and> track new [] = Some [])"

text \<open>
  What the claims about \<^verbatim>\<open>opensock\<close> say of a trace.  In \<open>faithful\<close> every return
  value in the trace is the answer of the environment at that point.  The other functions
  read one pass through the loop for a candidate: the \<^verbatim>\<open>socket\<close> call, and nothing more
  when it failed; with a bind address, its lookup and a \<^verbatim>\<open>bind\<close> for each address found,
  in order, up to the first that succeeds; when none succeeded only the \<^verbatim>\<open>close\<close>;
  otherwise the \<^verbatim>\<open>connect\<close> to the candidate's address, which ends the pass when it
  succeeds and is followed by the \<^verbatim>\<open>close\<close> when it fails.
\<close>

fun faithful :: "os \<Rightarrow> event list \<Rightarrow> event list \<Rightarrow> bool" where
  "faithful os h [] = True"
| "faithful os h (e # es) =
     ((case e of
         Socket f ty p fd \<Rightarrow> fd = sys_socket os h f ty p
       | Bind fd a rc \<Rightarrow> rc = sys_bind os h fd a
       | Connect fd a rc \<Rightarrow> rc = sys_connect os h fd a
       | _ \<Rightarrow> True)
      \<and> faithful os (h @ [e]) es)"

fun connect_shape :: "addrinfo \<Rightarrow> int \<Rightarrow> event list \<Rightarrow> bool" where
  "connect_shape c fd [Connect fd' a rc] = (fd' = fd \<and> a = ai_addr c \<and> rc = 0)"
| "connect_shape c fd [Connect fd' a rc, Close fd''] =
     (fd' = fd \<and> a = ai_addr c \<and> rc \<noteq> 0 \<and> fd'' = fd)"
| "connect_shape c fd es = False"

fun binds_shape :: "addrinfo \<Rightarrow> int \<Rightarrow> sockaddr list \<Rightarrow> event list \<Rightarrow> bool" where
  "binds_shape c fd (x # xs) (Bind fd' a rc # es) =
     (fd' = fd \<and> a = x \<and> (if rc = 0 then connect_shape c fd es else binds_shape c fd xs es))"
| "binds_shape c fd [] [Close fd'] = (fd' = fd)"
| "binds_shape c fd xs es = False"

definition bind_addresses :: "os \<Rightarrow> event list \<Rightarrow> string \<Rightarrow> sockaddr list" where
  "bind_addresses os h addr =
     (case sys_getaddrinfo os h addr None of
        None \<Rightarrow> []
      | Some (res, rest) \<Rightarrow> map ai_addr (res # rest))"

fun pass_shape :: "os \<Rightarrow> string option \<Rightarrow> event list \<Rightarrow> addrinfo \<Rightarrow> event list \<Rightarrow> bool" where
  "pass_shape os chosen h c (Socket f ty p fd # es) =
     ((f, ty, p) = ai_triple c \<and>
      (if fd < 0 then es = []
       else
         (case chosen of
            None \<Rightarrow> connect_shape c fd es
          | Some addr \<Rightarrow>
              (case es of
                 Getaddrinfo node None # es' \<Rightarrow>
                   node = addr
                   \<and> binds_shape c fd (bind_addresses os (h @ [Socket f ty p fd]) addr) es'
               | _ \<Rightarrow> False))))"
| "pass_shape os chosen h c es = False"

fun passes_shape ::
    "os \<Rightarrow> string option \<Rightarrow> event list \<Rightarrow> addrinfo list \<Rightarrow> event list list \<Rightarrow> bool" where
  "passes_shape os chosen h [] [] = True"
| "passes_shape os chosen h (c # cs) (seg # segs) =
     (pass_shape os chosen h c seg \<and> passes_shape os chosen (h @ seg) cs segs)"
| "passes_shape os chosen h cs segs = False"

section \<open>Example environments\<close>

text \<open>
  A connection on which nothing has been recorded, a host with four addresses (no socket
  for the first, no bind on the socket of the second, no connection to the third), a host
  with two addresses of which the first refuses the connection, and three peers:
  descriptor 5 has an address without a name, descriptor 6 is not connected, descriptor 7
  has an address with a name.
\<close>

definition fresh_conn :: conn_s where
  "fresh_conn =
     \<lparr>reversepath = None, error_number = None, error_string = None, error_variables = []\<rparr>"

definition four_candidates :: os where
  "four_candidates =
     \<lparr>sys_getaddrinfo = (\<lambda>t node service.
         if node = ''backend'' \<and> service = Some ''8080''
         then Some (\<lparr>ai_family = 99, ai_socktype = 1, ai_protocol = 6, ai_addr = ''unsupported''\<rparr>,
                    [\<lparr>ai_family = 2, ai_socktype = 1, ai_protocol = 6, ai_addr = ''10.0.0.1:8080''\<rparr>,
                     \<lparr>ai_family = 2, ai_socktype = 1, ai_protocol = 6, ai_addr = ''10.0.0.2:8080''\<rparr>,
                     \<lparr>ai_family = 10, ai_socktype = 1, ai_protocol = 6, ai_addr = ''[fd00::2]:8080''\<rparr>])
         else if node = ''192.0.2.1'' \<and> service = None
         then Some (\<lparr>ai_family = 2, ai_socktype = 1, ai_protocol = 6, ai_addr = ''192.0.2.1:0''\<rparr>,
                    [\<lparr>ai_family = 2, ai_socktype = 1, ai_protocol = 6, ai_addr = ''192.0.2.2:0''\<rparr>])
         else None),
      sys_socket = (\<lambda>t family type protocol.
         if family = 99 then - 1 else 3 + int (length (sockets t))),
      sys_bind = (\<lambda>t fd addr.
         if fd = 4 then - 1 else if fd = 5 \<and> addr = ''192.0.2.1:0'' then - 1 else 0),
      sys_connect = (\<lambda>t fd addr. if addr = ''[fd00::2]:8080'' then 0 else - 1)\<rparr>"

definition two_candidates :: os where
  "two_candidates =
     \<lparr>sys_getaddrinfo = (\<lambda>t node service.
         if node = ''backend'' \<and> service = Some ''8080''
         then Some (\<lparr>ai_family = 2, ai_socktype = 1, ai_protocol = 6, ai_addr = ''10.0.0.1:8080''\<rparr>,
                    [\<lparr>ai_family = 10, ai_socktype = 1, ai_protocol = 6, ai_addr = ''[fd00::2]:8080''\<rparr>])
         else if node = ''192.0.2.1'' \<and> service = None
         then Some (\<lparr>ai_family = 2, ai_socktype = 1, ai_protocol = 6, ai_addr = ''192.0.2.1:0''\<rparr>, [])
         else None),
      sys_socket = (\<lambda>t family type protocol. 3 + int (length (sockets t))),
      sys_bind = (\<lambda>t fd addr. 0),
      sys_connect = (\<lambda>t fd addr. if addr = ''[fd00::2]:8080'' then 0 else - 1)\<rparr>"

definition three_peers :: peer_os where
  "three_peers =
     \<lparr>sys_getpeername = (\<lambda>fd. if fd = 6 then None
                               else if fd = 5 then Some ''198.51.100.7'' else Some ''192.0.2.10''),
      get_ip_string = (\<lambda>sa len. Some sa),
      sys_getnameinfo = (\<lambda>sa len. if sa = ''192.0.2.10'' then Inr ''client.example''
                                   else Inl (- 2))\<rparr>"

section \<open>Properties of the string functions\<close>

lemma strstr_start: "strstr h n = Some 0 \<longleftrightarrow> prefix n h"
  by (cases h) auto

lemma strstr_found: "strstr h n \<noteq> None \<longleftrightarrow> sublist n h"
  by (induction h) (auto simp: sublist_Cons_right)

lemma strstr_offset:
  "strstr h n = Some i \<Longrightarrow> h = take i h @ n @ drop (i + length n) h"
proof (induction h arbitrary: i)
  case Nil
  then show ?case by (simp split: if_splits)
next
  case (Cons c h)
  show ?case
  proof (cases "prefix n (c # h)")
    case True
    with Cons.prems have "i = 0" by simp
    with True show ?thesis by (auto simp: prefix_def)
  next
    case False
    with Cons.prems obtain j where j: "strstr h n = Some j" "i = Suc j" by auto
    from Cons.IH [OF j(1)] j(2) show ?thesis by simp
  qed
qed

lemma deref_slash: "deref s = CHR ''/'' \<longleftrightarrow> prefix ''/'' s"
  by (cases s) (auto simp: deref_def)

lemma tolower_Cookie: "map tolower ''Cookie'' = ''cookie''"
  by code_simp

lemma tolower_cookie: "map tolower ''cookie'' = ''cookie''"
  by code_simp

section \<open>The reverse path table\<close>

lemma reversepath_scan_find:
  "reversepath_scan tbl u = List.find (\<lambda>r. prefix (path r) u) tbl"
  by (induction tbl) (simp_all add: strstr_start)

lemma reversepath_scan_member: "reversepath_scan tbl u = Some r \<Longrightarrow> r \<in> set tbl"
  by (induction tbl) (auto split: if_splits)

lemma reversepath_add_accepted:
  "sublist ''://'' u \<Longrightarrow> prefix ''/'' p \<Longrightarrow>
   reversepath_add (Some p) (Some u) config =
     config\<lparr>reversepath_list := \<lparr>path = p, url = u\<rparr> # reversepath_list config\<rparr>"
  using strstr_found [of u "''://''"]
  by (simp add: reversepath_add_def deref_slash)

lemma reversepath_add_cases:
  "reversepath_add p u config = config \<or>
   (\<exists>r. reversepath_add p u config = config\<lparr>reversepath_list := r # reversepath_list config\<rparr>
      \<and> prefix ''/'' (path r) \<and> sublist ''://'' (url r))"
proof (cases u)
  case None
  then show ?thesis by (simp add: reversepath_add_def)
next
  case (Some u')
  show ?thesis
  proof (cases "strstr u' ''://''")
    case None
    with Some show ?thesis by (simp add: reversepath_add_def)
  next
    case found: (Some i)
    then have sub: "sublist ''://'' u'"
      using strstr_found [of u' "''://''"] by simp
    show ?thesis
    proof (cases p)
      case None
      with Some found have "reversepath_add p u config =
          config\<lparr>reversepath_list := \<lparr>path = ''/'', url = u'\<rparr> # reversepath_list config\<rparr>"
        by (simp add: reversepath_add_def)
      with sub show ?thesis by fastforce
    next
      case p: (Some p')
      show ?thesis
      proof (cases "deref p' = CHR ''/''")
        case True
        with Some found p have "reversepath_add p u config =
            config\<lparr>reversepath_list := \<lparr>path = p', url = u'\<rparr> # reversepath_list config\<rparr>"
          by (simp add: reversepath_add_def)
        moreover from True have "prefix ''/'' p'" by (simp add: deref_slash)
        ultimately show ?thesis using sub by fastforce
      next
        case False
        with Some found p show ?thesis by (simp add: reversepath_add_def)
      qed
    qed
  qed
qed

lemma reversepath_add_invariant:
  assumes "\<forall>r \<in> set (reversepath_list config). prefix ''/'' (path r) \<and> sublist ''://'' (url r)"
  shows "\<forall>r \<in> set (reversepath_list (reversepath_add p u config)).
           prefix ''/'' (path r) \<and> sublist ''://'' (url r)"
  using assms reversepath_add_cases [of p u config] by auto

lemma reversepath_add_sequence:
  assumes "\<forall>r \<in> set (reversepath_list config). prefix ''/'' (path r) \<and> sublist ''://'' (url r)"
  shows "\<forall>r \<in> set (reversepath_list (fold (\<lambda>(p, u). reversepath_add p u) calls config)).
           prefix ''/'' (path r) \<and> sublist ''://'' (url r)"
  using assms
proof (induction calls arbitrary: config)
  case Nil
  then show ?case by simp
next
  case (Cons c calls)
  obtain p u where c: "c = (p, u)" by (cases c)
  from Cons.prems have "\<forall>r \<in> set (reversepath_list (reversepath_add p u config)).
      prefix ''/'' (path r) \<and> sublist ''://'' (url r)"
    by (rule reversepath_add_invariant)
  from Cons.IH [OF this] c show ?case by simp
qed

lemma reversepath_add_rejected:
  assumes "u = None \<or> u = Some [] \<or> (\<exists>u'. u = Some u' \<and> \<not> sublist ''://'' u')
             \<or> (\<exists>p'. p = Some p' \<and> \<not> prefix ''/'' p')"
  shows "reversepath_add p u config = config"
proof (cases u)
  case None
  then show ?thesis by (simp add: reversepath_add_def)
next
  case (Some u')
  show ?thesis
  proof (cases "sublist ''://'' u'")
    case False
    then have "strstr u' ''://'' = None"
      using strstr_found [of u' "''://''"] by simp
    with Some show ?thesis by (simp add: reversepath_add_def)
  next
    case True
    with assms Some obtain p' where "p = Some p'" "\<not> prefix ''/'' p'" by auto
    with Some show ?thesis by (simp add: reversepath_add_def deref_slash)
  qed
qed

lemma reversepath_add_default_path:
  assumes "sublist ''://'' u"
  shows "reversepath_add None (Some u) config =
           config\<lparr>reversepath_list := \<lparr>path = ''/'', url = u\<rparr> # reversepath_list config\<rparr>"
  using assms strstr_found [of u "''://''"] by (simp add: reversepath_add_def)

section \<open>The rewrite engine\<close>

text \<open>
  The request is rejected exactly when \<^verbatim>\<open>reverseonly\<close> is set and there is no rewritten
  URL, and with both flags off a request without a rewritten URL is passed through.
\<close>

lemma indicate_http_error_changes:
  "vars \<noteq> [] \<Longrightarrow> indicate_http_error connptr number message vars \<noteq> connptr"
  "vars \<noteq> [] \<Longrightarrow> indicate_http_error connptr number message vars \<noteq> connptr\<lparr>reversepath := p\<rparr>"
proof -
  assume v: "vars \<noteq> []"
  have "error_variables (indicate_http_error connptr number message vars) =
      error_variables connptr @ vars"
    by (simp add: indicate_http_error_def)
  with v have ne: "error_variables (indicate_http_error connptr number message vars) \<noteq>
      error_variables connptr" by simp
  then show "indicate_http_error connptr number message vars \<noteq> connptr" by auto
  have "error_variables (connptr\<lparr>reversepath := p\<rparr>) = error_variables connptr" by simp
  with ne show "indicate_http_error connptr number message vars \<noteq> connptr\<lparr>reversepath := p\<rparr>"
    by metis
qed

lemma reverse_rewrite_url_rejected_iff:
  "reverse_rewrite_url config REVERSE_COOKIE connptr hashofheaders u =
     Inr (None, indicate_http_error connptr 400 ''Bad Request''
                  [(''detail'', ''Request has an invalid URL''), (''url'', u)])
   \<longleftrightarrow> reverseonly config \<and> fst (reverse_lookup config REVERSE_COOKIE hashofheaders u) = None"
proof -
  obtain rewrite_url reverse
    where l: "reverse_lookup config REVERSE_COOKIE hashofheaders u = (rewrite_url, reverse)"
    by (cases "reverse_lookup config REVERSE_COOKIE hashofheaders u")
  show ?thesis
    using indicate_http_error_changes [of "[(''detail'', ''Request has an invalid URL''), (''url'', u)]"
        connptr 400 "''Bad Request''"]
      indicate_http_error_changes [of "[(''detail'', ''Request has an invalid URL''), (''url'', u)]"
        connptr 400 "''Bad Request''", THEN not_sym]
    by (auto simp: reverse_rewrite_url_def l split: pointer.splits)
qed

lemma reverse_rewrite_url_passthrough:
  assumes "\<not> reverseonly config" and "\<not> reversemagic config"
    and "fst (reverse_lookup config REVERSE_COOKIE hashofheaders u) = None"
  shows "reverse_rewrite_url config REVERSE_COOKIE connptr hashofheaders u = Inr (None, connptr)"
  using assms by (auto simp: reverse_rewrite_url_def split: prod.splits)

text \<open>
  Claim C1.  For every table and every request URL that starts with \<open>/\<close> and for which
  \<^verbatim>\<open>reversepath_get\<close> finds a rule, \<^verbatim>\<open>reverse_rewrite_url\<close> returns the rule's
  backend URL followed by the request URL without its first \<open>length (path rule)\<close> bytes;
  when the request URL is the rule's path, this is the backend URL alone.
\<close>

theorem rewrite_direct_match:
  assumes "prefix ''/'' request"
    and "reversepath_get config request = Some rule"
  shows "reverse_rewrite_url config REVERSE_COOKIE connptr hashofheaders request =
           Inr (Some (url rule @ drop (length (path rule)) request),
                if reversemagic config then connptr\<lparr>reversepath := Some (path rule)\<rparr>
                else connptr)
         \<and> (request = path rule \<longrightarrow>
              reverse_rewrite_url config REVERSE_COOKIE connptr hashofheaders request =
                Inr (Some (url rule),
                     if reversemagic config then connptr\<lparr>reversepath := Some (path rule)\<rparr>
                     else connptr))"
proof -
  from assms have main: "reverse_rewrite_url config REVERSE_COOKIE connptr hashofheaders request =
      Inr (Some (url rule @ drop (length (path rule)) request),
           if reversemagic config then connptr\<lparr>reversepath := Some (path rule)\<rparr>
           else connptr)"
    by (simp add: reverse_rewrite_url_def reverse_lookup_def deref_slash)
  have "request = path rule \<Longrightarrow> url rule @ drop (length (path rule)) request = url rule"
    by simp
  with main show ?thesis by metis
qed

theorem rewrite_direct_match_witness:
  "reverse_rewrite_url
     \<lparr>reversepath_list = [\<lparr>path = ''/foo'', url = ''http://b/base''\<rparr>],
      reversemagic = False, reverseonly = True, bind_address = None\<rparr>
     ''tinyp'' fresh_conn [] ''/foo/x'' = Inr (Some ''http://b/base/x'', fresh_conn)
   \<and> reverse_rewrite_url
     \<lparr>reversepath_list = [\<lparr>path = ''/foo'', url = ''http://b/base''\<rparr>],
      reversemagic = True, reverseonly = False, bind_address = None\<rparr>
     ''tinyp'' fresh_conn [] ''/foo'' =
       Inr (Some ''http://b/base'', fresh_conn\<lparr>reversepath := Some ''/foo''\<rparr>)"
proof -
  let ?r = "\<lparr>path = ''/foo'', url = ''http://b/base''\<rparr>"
  let ?c1 = "\<lparr>reversepath_list = [?r], reversemagic = False, reverseonly = True,
               bind_address = None\<rparr>"
  let ?c2 = "\<lparr>reversepath_list = [?r], reversemagic = True, reverseonly = False,
               bind_address = None\<rparr>"
  have s1: "prefix ''/'' ''/foo/x''" and s2: "prefix ''/'' ''/foo''" by simp_all
  have g1: "reversepath_get ?c1 ''/foo/x'' = Some ?r"
    and g2: "reversepath_get ?c2 ''/foo'' = Some ?r"
    by (simp_all add: reversepath_get_def)
  from rewrite_direct_match [OF s1 g1, of "''tinyp''" fresh_conn "[]"]
    rewrite_direct_match [OF s2 g2, of "''tinyp''" fresh_conn "[]"]
  show ?thesis by simp
qed

text \<open>
  Claim C2.  For a request URL that starts with \<open>/\<close> and has no direct match, with
  \<^verbatim>\<open>reversemagic\<close> set and a cookie header that holds \<^verbatim>\<open>REVERSE_COOKIE "="\<close>, the
  table is searched with everything after the first such marker, and a rule found there
  gives the rule's backend URL followed by the request URL without its first character
  only.
\<close>

theorem rewrite_cookie_fallback:
  assumes "prefix ''/'' request"
    and "reversepath_get config request = None"
    and "reversemagic config"
    and "hashmap_entry_by_key hashofheaders ''cookie'' = Some cookie"
    and "strstr cookie (REVERSE_COOKIE @ ''='') = Some i"
    and "reversepath_get config (drop (i + length (REVERSE_COOKIE @ ''='')) cookie) = Some rule"
  shows "cookie = take i cookie @ (REVERSE_COOKIE @ ''='')
                    @ drop (i + length (REVERSE_COOKIE @ ''='')) cookie
         \<and> reverse_rewrite_url config REVERSE_COOKIE connptr hashofheaders request =
             Inr (Some (url rule @ drop 1 request), connptr\<lparr>reversepath := Some (path rule)\<rparr>)"
proof
  from assms(5) show "cookie = take i cookie @ (REVERSE_COOKIE @ ''='')
      @ drop (i + length (REVERSE_COOKIE @ ''='')) cookie"
    by (rule strstr_offset)
next
  from assms show "reverse_rewrite_url config REVERSE_COOKIE connptr hashofheaders request =
      Inr (Some (url rule @ drop 1 request), connptr\<lparr>reversepath := Some (path rule)\<rparr>)"
    by (simp add: reverse_rewrite_url_def reverse_lookup_def deref_slash)
qed

theorem rewrite_cookie_fallback_witness:
  "reverse_rewrite_url
     \<lparr>reversepath_list = [\<lparr>path = ''/bar'', url = ''http://b2/''\<rparr>],
      reversemagic = True, reverseonly = False, bind_address = None\<rparr>
     ''tinyp'' fresh_conn [(''Host'', ''example''), (''Cookie'', ''lang=en; tinyp=/bar'')] ''/other'' =
       Inr (Some ''http://b2/other'', fresh_conn\<lparr>reversepath := Some ''/bar''\<rparr>)"
proof -
  let ?r = "\<lparr>path = ''/bar'', url = ''http://b2/''\<rparr>"
  let ?c = "\<lparr>reversepath_list = [?r], reversemagic = True, reverseonly = False,
              bind_address = None\<rparr>"
  let ?h = "[(''Host'', ''example''), (''Cookie'', ''lang=en; tinyp=/bar'')]"
  have h1: "prefix ''/'' ''/other''" by simp
  have h2: "reversepath_get ?c ''/other'' = None" by (simp add: reversepath_get_def)
  have h3: "reversemagic ?c" by simp
  have h4: "hashmap_entry_by_key ?h ''cookie'' = Some ''lang=en; tinyp=/bar''" by code_simp
  have h5: "strstr ''lang=en; tinyp=/bar'' (''tinyp'' @ ''='') = Some 9" by simp
  have h6: "reversepath_get ?c (drop (9 + length (''tinyp'' @ ''='')) ''lang=en; tinyp=/bar'') = Some ?r"
    by (simp add: reversepath_get_def)
  from rewrite_cookie_fallback [OF h1 h2 h3 h4 h5 h6, of fresh_conn]
  show ?thesis by simp
qed

text \<open>
  Claim C3.  \<^verbatim>\<open>reversepath_get\<close> goes through the rules from the one added last, and
  returns the first whose path is a prefix of the URL (the match is anchored at offset 0),
  or nothing when there is none; of two rules added with the same path, \<open>u1\<close> then
  \<open>u2\<close>, it returns the second.
\<close>

theorem reversepath_get_recent_first:
  "reversepath_get config request =
     List.find (\<lambda>r. prefix (path r) request) (reversepath_list config)
   \<and> (sublist ''://'' u1 \<and> sublist ''://'' u2 \<and> prefix ''/'' p \<and> prefix p request \<longrightarrow>
        reversepath_list (reversepath_add (Some p) (Some u2)
                            (reversepath_add (Some p) (Some u1) config)) =
          \<lparr>path = p, url = u2\<rparr> # \<lparr>path = p, url = u1\<rparr> # reversepath_list config
        \<and> reversepath_get (reversepath_add (Some p) (Some u2)
                             (reversepath_add (Some p) (Some u1) config)) request =
            Some \<lparr>path = p, url = u2\<rparr>)"
proof (intro conjI impI)
  show "reversepath_get config request =
      List.find (\<lambda>r. prefix (path r) request) (reversepath_list config)"
    by (simp add: reversepath_get_def reversepath_scan_find)
next
  assume a: "sublist ''://'' u1 \<and> sublist ''://'' u2 \<and> prefix ''/'' p \<and> prefix p request"
  then show tbl: "reversepath_list (reversepath_add (Some p) (Some u2)
                            (reversepath_add (Some p) (Some u1) config)) =
          \<lparr>path = p, url = u2\<rparr> # \<lparr>path = p, url = u1\<rparr> # reversepath_list config"
    by (simp add: reversepath_add_accepted)
  from a show "reversepath_get (reversepath_add (Some p) (Some u2)
                             (reversepath_add (Some p) (Some u1) config)) request =
            Some \<lparr>path = p, url = u2\<rparr>"
    by (simp add: reversepath_get_def tbl strstr_start)
qed

theorem reversepath_get_recent_first_witness:
  "reversepath_get
     (reversepath_add (Some ''/app'') (Some ''http://new/'')
        (reversepath_add (Some ''/app'') (Some ''http://old/'')
           \<lparr>reversepath_list = [], reversemagic = False, reverseonly = False,
            bind_address = None\<rparr>)) ''/app/index'' =
     Some \<lparr>path = ''/app'', url = ''http://new/''\<rparr>"
proof -
  have h: "sublist ''://'' ''http://old/'' \<and> sublist ''://'' ''http://new/'' \<and>
           prefix ''/'' ''/app'' \<and> prefix ''/app'' ''/app/index''"
    by (simp add: sublist_Cons_right)
  from reversepath_get_recent_first [of _ "''/app/index''" "''http://old/''" "''http://new/''" "''/app''"] h
  show ?thesis by blast
qed

text \<open>
  Claim C4.  After any sequence of \<^verbatim>\<open>reversepath_add\<close> calls on an empty table every
  rule has a path that starts with \<open>/\<close> and a URL that holds \<open>://\<close>, and so has every
  rule that \<^verbatim>\<open>reversepath_get\<close> returns.  A call with no URL, an empty URL, a URL
  without \<open>://\<close> or a path that does not start with \<open>/\<close> leaves the configuration as
  it was; a call with no path stores the rule under the path \<open>/\<close>.
\<close>

theorem reversepath_add_valid_rules:
  "(reversepath_list config = [] \<longrightarrow>
      (\<forall>r \<in> set (reversepath_list (fold (\<lambda>(p, u). reversepath_add p u) calls config)).
         prefix ''/'' (path r) \<and> sublist ''://'' (url r))
      \<and> (\<forall>request r. reversepath_get (fold (\<lambda>(p, u). reversepath_add p u) calls config) request
                         = Some r
            \<longrightarrow> prefix ''/'' (path r) \<and> sublist ''://'' (url r)))
   \<and> (u = None \<or> u = Some [] \<or> (\<exists>u'. u = Some u' \<and> \<not> sublist ''://'' u')
        \<or> (\<exists>p'. p = Some p' \<and> \<not> prefix ''/'' p')
      \<longrightarrow> reversepath_add p u config = config)
   \<and> (sublist ''://'' u' \<longrightarrow>
        reversepath_add None (Some u') config =
          config\<lparr>reversepath_list := \<lparr>path = ''/'', url = u'\<rparr> # reversepath_list config\<rparr>)"
proof (intro conjI impI allI)
  assume e: "reversepath_list config = []"
  then have "\<forall>r \<in> set (reversepath_list config). prefix ''/'' (path r) \<and> sublist ''://'' (url r)"
    by simp
  then show inv: "\<forall>r \<in> set (reversepath_list (fold (\<lambda>(p, u). reversepath_add p u) calls config)).
      prefix ''/'' (path r) \<and> sublist ''://'' (url r)"
    by (rule reversepath_add_sequence)
  fix request r
  assume "reversepath_get (fold (\<lambda>(p, u). reversepath_add p u) calls config) request = Some r"
  then have "r \<in> set (reversepath_list (fold (\<lambda>(p, u). reversepath_add p u) calls config))"
    by (simp add: reversepath_get_def reversepath_scan_member)
  with inv show "prefix ''/'' (path r)" and "sublist ''://'' (url r)" by blast+
next
  assume "u = None \<or> u = Some [] \<or> (\<exists>u'. u = Some u' \<and> \<not> sublist ''://'' u')
        \<or> (\<exists>p'. p = Some p' \<and> \<not> prefix ''/'' p')"
  then show "reversepath_add p u config = config"
    by (rule reversepath_add_rejected)
next
  assume "sublist ''://'' u'"
  then show "reversepath_add None (Some u') config =
          config\<lparr>reversepath_list := \<lparr>path = ''/'', url = u'\<rparr> # reversepath_list config\<rparr>"
    by (rule reversepath_add_default_path)
qed

theorem reversepath_add_valid_rules_witness:
  "reversepath_list
     (fold (\<lambda>(p, u). reversepath_add p u)
        [(Some ''/a'', Some ''http://x/''), (Some ''b'', Some ''http://y/''),
         (None, Some ''http://z/''), (Some ''/c'', Some ''c.example''), (Some ''/d'', None),
         (Some [], Some ''http://e/'')]
        \<lparr>reversepath_list = [], reversemagic = False, reverseonly = False,
         bind_address = None\<rparr>) =
     [\<lparr>path = ''/'', url = ''http://z/''\<rparr>, \<lparr>path = ''/a'', url = ''http://x/''\<rparr>]
   \<and> reversepath_add (Some ''b'') (Some ''http://y/'')
        \<lparr>reversepath_list = [], reversemagic = False, reverseonly = False,
         bind_address = None\<rparr> =
      \<lparr>reversepath_list = [], reversemagic = False, reverseonly = False, bind_address = None\<rparr>
   \<and> reversepath_list (reversepath_add None (Some ''http://z/'')
        \<lparr>reversepath_list = [], reversemagic = False, reverseonly = False,
         bind_address = None\<rparr>) = [\<lparr>path = ''/'', url = ''http://z/''\<rparr>]"
proof -
  let ?c = "\<lparr>reversepath_list = [], reversemagic = False, reverseonly = False,
              bind_address = None\<rparr>"
  let ?calls = "[(Some ''/a'', Some ''http://x/''), (Some ''b'', Some ''http://y/''),
         (None, Some ''http://z/''), (Some ''/c'', Some ''c.example''), (Some ''/d'', None),
         (Some [], Some ''http://e/'')]"
  have e: "reversepath_list ?c = []" by simp
  have run: "reversepath_list (fold (\<lambda>(p, u). reversepath_add p u) ?calls ?c) =
      [\<lparr>path = ''/'', url = ''http://z/''\<rparr>, \<lparr>path = ''/a'', url = ''http://x/''\<rparr>]"
    by (simp add: reversepath_add_def deref_def)
  have bad: "\<exists>p'. Some ''b'' = Some p' \<and> \<not> prefix ''/'' p'" by simp
  have good: "sublist ''://'' ''http://z/''" by (simp add: sublist_Cons_right)
  from reversepath_add_valid_rules [of ?c ?calls "Some ''http://y/''" "Some ''b''" "''http://z/''"]
    e run bad good
  show ?thesis by simp
qed

text \<open>
  Claim C5.  With no rule found and \<^verbatim>\<open>reverseonly\<close> off the claim expects the return
  value NULL and no other effect.  With \<^verbatim>\<open>reversemagic\<close> on, the code goes on to
  \<^verbatim>\<open>reverse->path\<close> while \<^verbatim>\<open>reverse\<close> is NULL.
\<close>

theorem rewrite_no_match_magic_fault:
  "reversepath_get
     \<lparr>reversepath_list = [\<lparr>path = ''/foo'', url = ''http://b/base''\<rparr>],
      reversemagic = True, reverseonly = False, bind_address = None\<rparr> ''/zzz'' = None
   \<and> reverse_rewrite_url
       \<lparr>reversepath_list = [\<lparr>path = ''/foo'', url = ''http://b/base''\<rparr>],
        reversemagic = True, reverseonly = False, bind_address = None\<rparr>
       ''tinyp'' fresh_conn [] ''/zzz'' = Inl NullDereference"
  by (simp add: reverse_rewrite_url_def reverse_lookup_def reversepath_get_def deref_def)

text \<open>
  Claim C6, as stated, fails: a request URL that does not start with \<open>/\<close> is rejected
  with status 400 when \<^verbatim>\<open>reverseonly\<close> is set, which is not a pass-through.
\<close>

theorem rewrite_absolute_uri_rejected:
  "\<not> prefix ''/'' ''http://h/x''
   \<and> reverse_rewrite_url
       \<lparr>reversepath_list = [], reversemagic = False, reverseonly = True, bind_address = None\<rparr>
       ''tinyp'' fresh_conn [] ''http://h/x'' =
     Inr (None,
          \<lparr>reversepath = None, error_number = Some 400, error_string = Some ''Bad Request'',
           error_variables = [(''detail'', ''Request has an invalid URL''),
                              (''url'', ''http://h/x'')]\<rparr>)
   \<and> reverse_rewrite_url
       \<lparr>reversepath_list = [], reversemagic = False, reverseonly = True, bind_address = None\<rparr>
       ''tinyp'' fresh_conn [] ''http://h/x'' \<noteq> Inr (None, fresh_conn)"
  by (simp add: reverse_rewrite_url_def reverse_lookup_def deref_def indicate_http_error_def
      fresh_conn_def)

text \<open>
  Claim C6, amended.  A request URL that does not start with \<open>/\<close> is never rewritten,
  whatever the table and the headers hold: with \<^verbatim>\<open>reverseonly\<close> set it is rejected with
  status 400 and the URL as detail, and with \<^verbatim>\<open>reverseonly\<close> and \<^verbatim>\<open>reversemagic\<close>
  both off it is passed through, the connection untouched.
\<close>

theorem rewrite_absolute_uri:
  assumes "\<not> prefix ''/'' request"
  shows "(reverseonly config \<longrightarrow>
            reverse_rewrite_url config REVERSE_COOKIE connptr hashofheaders request =
              Inr (None, indicate_http_error connptr 400 ''Bad Request''
                           [(''detail'', ''Request has an invalid URL''), (''url'', request)]))
       \<and> (\<not> reverseonly config \<and> \<not> reversemagic config \<longrightarrow>
            reverse_rewrite_url config REVERSE_COOKIE connptr hashofheaders request =
              Inr (None, connptr))"
  using assms by (simp add: reverse_rewrite_url_def reverse_lookup_def deref_slash)

theorem rewrite_absolute_uri_witness:
  "reverse_rewrite_url
     \<lparr>reversepath_list = [\<lparr>path = ''/foo'', url = ''http://b/base''\<rparr>],
      reversemagic = True, reverseonly = True, bind_address = None\<rparr>
     ''tinyp'' fresh_conn [] ''http://h/foo'' =
     Inr (None, indicate_http_error fresh_conn 400 ''Bad Request''
                  [(''detail'', ''Request has an invalid URL''), (''url'', ''http://h/foo'')])
   \<and> reverse_rewrite_url
     \<lparr>reversepath_list = [\<lparr>path = ''/foo'', url = ''http://b/base''\<rparr>],
      reversemagic = False, reverseonly = False, bind_address = None\<rparr>
     ''tinyp'' fresh_conn [] ''http://h/foo'' = Inr (None, fresh_conn)"
proof -
  have h: "\<not> prefix ''/'' ''http://h/foo''" by simp
  from rewrite_absolute_uri [OF h, of
      "\<lparr>reversepath_list = [\<lparr>path = ''/foo'', url = ''http://b/base''\<rparr>],
        reversemagic = True, reverseonly = True, bind_address = None\<rparr>" "''tinyp''" fresh_conn "[]"]
    rewrite_absolute_uri [OF h, of
      "\<lparr>reversepath_list = [\<lparr>path = ''/foo'', url = ''http://b/base''\<rparr>],
        reversemagic = False, reverseonly = False, bind_address = None\<rparr>" "''tinyp''" fresh_conn "[]"]
  show ?thesis by simp
qed

text \<open>
  Claim C7.  When no rule was found the claim expects that the recording step reads no
  rule and leaves \<^verbatim>\<open>connptr->reversepath\<close> alone.  The code tests \<^verbatim>\<open>reversemagic\<close>
  only, and reads \<^verbatim>\<open>reverse->path\<close> through the NULL that both lookups left.
\<close>

theorem rewrite_record_null_rule:
  "reverse_lookup
     \<lparr>reversepath_list = [\<lparr>path = ''/bar'', url = ''http://b2/''\<rparr>],
      reversemagic = True, reverseonly = False, bind_address = None\<rparr>
     ''tinyp'' [(''cookie'', ''lang=en'')] ''/other'' = (None, Null)
   \<and> reverse_rewrite_url
       \<lparr>reversepath_list = [\<lparr>path = ''/bar'', url = ''http://b2/''\<rparr>],
        reversemagic = True, reverseonly = False, bind_address = None\<rparr>
       ''tinyp'' fresh_conn [(''cookie'', ''lang=en'')] ''/other'' = Inl NullDereference"
  by (simp add: reverse_rewrite_url_def reverse_lookup_def reversepath_get_def deref_def)

section \<open>The socket layer\<close>

lemma sockets_append: "sockets (a @ b) = sockets a @ sockets b"
  by (induction a rule: sockets.induct) simp_all

lemma connected_append: "connected (a @ b) = connected a @ connected b"
  by (induction a rule: connected.induct) simp_all

lemma bind_lookups_append: "bind_lookups (a @ b) = bind_lookups a @ bind_lookups b"
  by (induction a rule: bind_lookups.induct) simp_all

lemma track_append:
  "track (a @ b) opened = (case track a opened of None \<Rightarrow> None | Some o' \<Rightarrow> track b o')"
  by (induction a opened rule: track.induct) simp_all

lemma binds_only_Nil: "binds_only fd []"
  by (simp add: binds_only_def)

lemma binds_only_Cons:
  "binds_only fd (e # es) \<longleftrightarrow> (\<exists>a rc. e = Bind fd a rc) \<and> binds_only fd es"
  by (cases e) (simp_all add: binds_only_def)

lemma binds_only_observed:
  "binds_only fd es \<Longrightarrow>
   sockets es = [] \<and> connected es = [] \<and> bind_lookups es = []
   \<and> (fd \<in> set opened \<longrightarrow> track es opened = Some opened)"
  by (induction es) (auto simp: binds_only_Cons)

lemma bind_loop_trace:
  "bind_loop os sockfd res rest t = (r, t') \<Longrightarrow> \<exists>new. t' = t @ new \<and> binds_only sockfd new"
proof (induction rest arbitrary: res t)
  case Nil
  then show ?case
    by (auto simp: Let_def binds_only_Cons binds_only_Nil split: if_splits)
next
  case (Cons a rest)
  show ?case
  proof (cases "sys_bind os t sockfd (ai_addr res) = 0")
    case True
    with Cons.prems show ?thesis
      by (auto simp: Let_def binds_only_Cons binds_only_Nil)
  next
    case False
    let ?e = "Bind sockfd (ai_addr res) (sys_bind os t sockfd (ai_addr res))"
    from False Cons.prems have "bind_loop os sockfd a rest (t @ [?e]) = (r, t')"
      by (simp add: Let_def)
    from Cons.IH [OF this] obtain new where "t' = (t @ [?e]) @ new" "binds_only sockfd new"
      by blast
    then have "t' = t @ (?e # new)" "binds_only sockfd (?e # new)"
      by (simp_all add: binds_only_Cons)
    then show ?thesis by blast
  qed
qed

lemma bind_socket_trace:
  assumes "bind_socket os sockfd addr t = Inr (r, t')"
  shows "\<exists>new. t' = t @ Getaddrinfo addr None # new \<and> binds_only sockfd new"
proof (cases "sys_getaddrinfo os t addr None")
  case None
  with assms show ?thesis
    by (auto simp: bind_socket_def binds_only_Nil split: if_splits)
next
  case (Some found)
  obtain res rest where found: "found = (res, rest)" by (cases found)
  obtain r' t2 where loop: "bind_loop os sockfd res rest (t @ [Getaddrinfo addr None]) = (r', t2)"
    by (cases "bind_loop os sockfd res rest (t @ [Getaddrinfo addr None])")
  from bind_loop_trace [OF loop] obtain new
    where new: "t2 = (t @ [Getaddrinfo addr None]) @ new" "binds_only sockfd new" by blast
  from assms Some found loop have "t' = t2"
    by (auto simp: bind_socket_def split: if_splits option.splits)
  with new show ?thesis by simp
qed

lemma bind_socket_total:
  assumes "0 \<le> sockfd" and "addr \<noteq> []"
  shows "\<exists>r t'. bind_socket os sockfd addr t = Inr (r, t')"
  using assms by (auto simp: bind_socket_def split: option.splits prod.splits)

lemma opensock_body_chosen:
  "opensock_body os config bind_to res t =
     (let sockfd = sys_socket os t (ai_family res) (ai_socktype res) (ai_protocol res);
          t1 = t @ [Socket (ai_family res) (ai_socktype res) (ai_protocol res) sockfd]
      in if sockfd < 0 then Inr (Next, sockfd, t1)
         else
           (case chosen_bind config bind_to of
              None \<Rightarrow> Inr (opensock_connect os sockfd res t1)
            | Some addr \<Rightarrow>
                (case bind_socket os sockfd addr t1 of
                   Inl f \<Rightarrow> Inl f
                 | Inr (r, t2) \<Rightarrow>
                     if r < 0 then Inr (Next, sockfd, t2 @ [Close sockfd])
                     else Inr (opensock_connect os sockfd res t2))))"
  by (simp add: opensock_body_def chosen_bind_def Let_def split: option.splits)

lemma opensock_connect_trace:
  assumes "opensock_connect os fd res t = (fl, sockfd, t')"
  shows "sockfd = fd \<and>
         (fl = Break \<longrightarrow> t' = t @ [Connect fd (ai_addr res) 0]) \<and>
         (fl = Next \<longrightarrow> (\<exists>rc. rc \<noteq> 0 \<and> t' = t @ [Connect fd (ai_addr res) rc, Close fd]))"
  using assms by (auto simp: opensock_connect_def Let_def split: if_splits)

lemma opensock_body_trace:
  assumes "chosen_bind config bind_to \<noteq> Some []"
  shows "\<exists>fl sockfd new. opensock_body os config bind_to res t = Inr (fl, sockfd, t @ new)
           \<and> pass_events res (chosen_bind config bind_to) fl sockfd new"
proof -
  let ?fd = "sys_socket os t (ai_family res) (ai_socktype res) (ai_protocol res)"
  let ?s = "Socket (ai_family res) (ai_socktype res) (ai_protocol res) ?fd"
  show ?thesis
  proof (cases "?fd < 0")
    case True
    then have "opensock_body os config bind_to res t = Inr (Next, ?fd, t @ [?s])"
      by (simp add: opensock_body_chosen Let_def)
    moreover from True have "pass_events res (chosen_bind config bind_to) Next ?fd [?s]"
      by (simp add: pass_events_def ai_triple_def)
    ultimately show ?thesis by blast
  next
    case False
    then have fd: "0 \<le> ?fd" by simp
    show ?thesis
    proof (cases "chosen_bind config bind_to")
      case None
      obtain fl sockfd t' where c: "opensock_connect os ?fd res (t @ [?s]) = (fl, sockfd, t')"
        by (cases "opensock_connect os ?fd res (t @ [?s])")
      from False None c
      have run: "opensock_body os config bind_to res t = Inr (fl, sockfd, t')"
        by (simp add: opensock_body_chosen Let_def)
      from opensock_connect_trace [OF c] have sockfd: "sockfd = ?fd"
        and br: "fl = Break \<Longrightarrow> t' = t @ [?s, Connect ?fd (ai_addr res) 0]"
        and nx: "fl = Next \<Longrightarrow> \<exists>rc. rc \<noteq> 0 \<and> t' = t @ [?s, Connect ?fd (ai_addr res) rc, Close ?fd]"
        by auto
      show ?thesis
      proof (cases fl)
        case Break
        with fd have "pass_events res (chosen_bind config bind_to) fl sockfd
            [?s, Connect ?fd (ai_addr res) 0]"
          by (simp add: pass_events_def ai_triple_def sockfd)
        with run br [OF Break] show ?thesis by blast
      next
        case Next
        from nx [OF Next] obtain rc where rc: "rc \<noteq> 0"
          "t' = t @ [?s, Connect ?fd (ai_addr res) rc, Close ?fd]" by blast
        with fd Next have "pass_events res (chosen_bind config bind_to) fl sockfd
            [?s, Connect ?fd (ai_addr res) rc, Close ?fd]"
          by (simp add: pass_events_def ai_triple_def sockfd)
        with run rc(2) show ?thesis by blast
      qed
    next
      case (Some addr)
      with assms have addr: "addr \<noteq> []" by auto
      from bind_socket_total [OF fd addr] obtain r t2
        where b: "bind_socket os ?fd addr (t @ [?s]) = Inr (r, t2)" by blast
      from bind_socket_trace [OF b] obtain bnew
        where t2: "t2 = (t @ [?s]) @ Getaddrinfo addr None # bnew" and bo: "binds_only ?fd bnew"
        by blast
      let ?pre = "?s # Getaddrinfo addr None # bnew"
      from binds_only_observed [OF bo, of "[?fd]"]
      have obs: "sockets bnew = []" "connected bnew = []" "bind_lookups bnew = []"
        "track bnew [?fd] = Some [?fd]" by simp_all
      have pre: "sockets ?pre = [ai_triple res]" "connected ?pre = []"
        "bind_lookups ?pre = [addr]" "track ?pre [] = Some [?fd]"
        using fd obs by (simp_all add: ai_triple_def)
      have t2': "t2 = t @ ?pre" using t2 by simp
      show ?thesis
      proof (cases "r < 0")
        case True
        with False Some b
        have run: "opensock_body os config bind_to res t = Inr (Next, ?fd, t @ (?pre @ [Close ?fd]))"
          by (simp add: opensock_body_chosen Let_def t2')
        have "pass_events res (chosen_bind config bind_to) Next ?fd (?pre @ [Close ?fd])"
          unfolding pass_events_def sockets_append connected_append bind_lookups_append
            track_append pre Some
          by simp
        with run show ?thesis by blast
      next
        case r: False
        obtain fl sockfd t' where c: "opensock_connect os ?fd res t2 = (fl, sockfd, t')"
          by (cases "opensock_connect os ?fd res t2")
        from False Some b r c
        have run: "opensock_body os config bind_to res t = Inr (fl, sockfd, t')"
          by (simp add: opensock_body_chosen Let_def)
        from opensock_connect_trace [OF c] have sockfd: "sockfd = ?fd"
          and br: "fl = Break \<Longrightarrow> t' = t @ (?pre @ [Connect ?fd (ai_addr res) 0])"
          and nx: "fl = Next \<Longrightarrow> \<exists>rc. rc \<noteq> 0 \<and> t' = t @ (?pre @ [Connect ?fd (ai_addr res) rc, Close ?fd])"
          by (auto simp: t2')
        show ?thesis
        proof (cases fl)
          case Break
          have "pass_events res (chosen_bind config bind_to) fl sockfd
              (?pre @ [Connect ?fd (ai_addr res) 0])"
            unfolding pass_events_def sockets_append connected_append bind_lookups_append
              track_append pre Some Break sockfd
            using fd by simp
          with run br [OF Break] show ?thesis by blast
        next
          case Next
          from nx [OF Next] obtain rc where rc: "rc \<noteq> 0"
            "t' = t @ (?pre @ [Connect ?fd (ai_addr res) rc, Close ?fd])" by blast
          have "pass_events res (chosen_bind config bind_to) fl sockfd
              (?pre @ [Connect ?fd (ai_addr res) rc, Close ?fd])"
            unfolding pass_events_def sockets_append connected_append bind_lookups_append
              track_append pre Some Next sockfd
            using fd rc(1) by simp
          with run rc(2) show ?thesis by blast
        qed
      qed
    qed
  qed
qed

lemma loop_events_break:
  assumes "pass_events res chosen Break sockfd new"
  shows "loop_events (res # rest) chosen (Some res) sockfd new 1"
  using assms by (simp add: loop_events_def pass_events_def)

lemma loop_events_last:
  assumes "pass_events res chosen Next sockfd new"
  shows "loop_events [res] chosen None sockfd new 1"
  using assms by (simp add: loop_events_def pass_events_def)

lemma loop_events_next:
  assumes p: "pass_events res chosen Next sockfd1 new1"
    and l: "loop_events (a # rest) chosen r sockfd new2 k"
  shows "loop_events (res # a # rest) chosen r sockfd (new1 @ new2) (Suc k)"
proof -
  from l have k: "1 \<le> k" "k \<le> length (a # rest)"
    "sockets new2 = map ai_triple (take k (a # rest))"
    "set (bind_lookups new2) \<subseteq> set_option chosen" "length (bind_lookups new2) \<le> k"
    and r: "case r of
              Some c \<Rightarrow> c = (a # rest) ! (k - 1) \<and> 0 \<le> sockfd
                        \<and> connected new2 = [(sockfd, ai_addr c)]
                        \<and> last new2 = Connect sockfd (ai_addr c) 0 \<and> track new2 [] = Some [sockfd]
            | None \<Rightarrow> k = length (a # rest) \<and> connected new2 = [] \<and> track new2 [] = Some []"
    unfolding loop_events_def by blast+
  from p have p': "sockets new1 = [ai_triple res]" "set (bind_lookups new1) \<subseteq> set_option chosen"
    "length (bind_lookups new1) \<le> 1" "connected new1 = []" "track new1 [] = Some []"
    by (simp_all add: pass_events_def)
  from k(1) obtain j where j: "k = Suc j" by (cases k) auto
  have 1: "1 \<le> Suc k" "Suc k \<le> length (res # a # rest)" using k by simp_all
  have 2: "sockets (new1 @ new2) = map ai_triple (take (Suc k) (res # a # rest))"
    by (simp add: sockets_append p' k(3))
  have 3: "set (bind_lookups (new1 @ new2)) \<subseteq> set_option chosen"
    using p'(2) k(4) by (simp add: bind_lookups_append)
  have 4: "length (bind_lookups (new1 @ new2)) \<le> Suc k"
    using p'(3) k(5) by (simp add: bind_lookups_append)
  have 5: "case r of
              Some c \<Rightarrow> c = (res # a # rest) ! (Suc k - 1) \<and> 0 \<le> sockfd
                        \<and> connected (new1 @ new2) = [(sockfd, ai_addr c)]
                        \<and> last (new1 @ new2) = Connect sockfd (ai_addr c) 0
                        \<and> track (new1 @ new2) [] = Some [sockfd]
            | None \<Rightarrow> Suc k = length (res # a # rest) \<and> connected (new1 @ new2) = []
                        \<and> track (new1 @ new2) [] = Some []"
  proof (cases r)
    case None
    with r show ?thesis by (simp add: connected_append track_append p')
  next
    case (Some c)
    with r have c: "c = (a # rest) ! (k - 1)" "0 \<le> sockfd" "connected new2 = [(sockfd, ai_addr c)]"
      "last new2 = Connect sockfd (ai_addr c) 0" "track new2 [] = Some [sockfd]" by simp_all
    from c(3) have "new2 \<noteq> []" by auto
    with c Some j show ?thesis by (simp add: connected_append track_append p')
  qed
  from 1 2 3 4 5 show ?thesis unfolding loop_events_def by blast
qed

lemma opensock_loop_trace:
  assumes "chosen_bind config bind_to \<noteq> Some []"
  shows "\<exists>r sockfd new k. opensock_loop os config bind_to res rest t = Inr (r, sockfd, t @ new)
           \<and> loop_events (res # rest) (chosen_bind config bind_to) r sockfd new k"
proof (induction rest arbitrary: res t)
  case Nil
  from opensock_body_trace [OF assms, of os res t] obtain fl sockfd new
    where b: "opensock_body os config bind_to res t = Inr (fl, sockfd, t @ new)"
      and p: "pass_events res (chosen_bind config bind_to) fl sockfd new" by blast
  show ?case
  proof (cases fl)
    case Break
    with b have "opensock_loop os config bind_to res [] t = Inr (Some res, sockfd, t @ new)"
      by simp
    with loop_events_break p Break show ?thesis by blast
  next
    case Next
    with b have "opensock_loop os config bind_to res [] t = Inr (None, sockfd, t @ new)"
      by simp
    with loop_events_last p Next show ?thesis by blast
  qed
next
  case (Cons a rest)
  from opensock_body_trace [OF assms, of os res t] obtain fl sockfd new
    where b: "opensock_body os config bind_to res t = Inr (fl, sockfd, t @ new)"
      and p: "pass_events res (chosen_bind config bind_to) fl sockfd new" by blast
  show ?case
  proof (cases fl)
    case Break
    with b have "opensock_loop os config bind_to res (a # rest) t = Inr (Some res, sockfd, t @ new)"
      by simp
    with loop_events_break p Break show ?thesis by blast
  next
    case Next
    from Cons.IH [of a "t @ new"] obtain r sockfd2 new2 k
      where l: "opensock_loop os config bind_to a rest (t @ new) = Inr (r, sockfd2, (t @ new) @ new2)"
        and e: "loop_events (a # rest) (chosen_bind config bind_to) r sockfd2 new2 k" by blast
    from b Next l
    have "opensock_loop os config bind_to res (a # rest) t = Inr (r, sockfd2, t @ (new @ new2))"
      by simp
    moreover from p Next e
    have "loop_events (res # a # rest) (chosen_bind config bind_to) r sockfd2 (new @ new2) (Suc k)"
      by (auto intro: loop_events_next)
    ultimately show ?thesis by blast
  qed
qed

lemma opensock_body_cong:
  assumes "chosen_bind config bind_to = chosen_bind config' bind_to'"
  shows "opensock_body os config bind_to res t = opensock_body os config' bind_to' res t"
  by (simp only: opensock_body_chosen assms)

lemma opensock_loop_cong:
  assumes "chosen_bind config bind_to = chosen_bind config' bind_to'"
  shows "opensock_loop os config bind_to res rest t = opensock_loop os config' bind_to' res rest t"
proof (induction rest arbitrary: res t)
  case Nil
  show ?case by (simp add: opensock_body_cong [OF assms])
next
  case (Cons a rest)
  show ?case
    by (simp add: opensock_body_cong [OF assms] Cons.IH
        split: sum.splits prod.splits flow.splits)
qed

lemma opensock_cong:
  assumes "chosen_bind config bind_to = chosen_bind config' bind_to'"
  shows "opensock os config host port bind_to t = opensock os config' host port bind_to' t"
  unfolding opensock_def opensock_loop_cong [OF assms] by (rule refl)

lemma opensock_trace:
  assumes "0 < port" and "chosen_bind config bind_to \<noteq> Some []"
  shows "\<exists>fd new. opensock os config host port bind_to t =
             Inr (fd, t @ Getaddrinfo host (Some (snprintf_d 6 port)) # new)
         \<and> (case sys_getaddrinfo os t host (Some (snprintf_d 6 port)) of
              None \<Rightarrow> fd = - 1 \<and> new = []
            | Some (res, rest) \<Rightarrow>
                (\<exists>r sockfd k. loop_events (res # rest) (chosen_bind config bind_to) r sockfd new k
                   \<and> fd = (case r of None \<Rightarrow> - 1 | Some _ \<Rightarrow> sockfd)))"
proof (cases "sys_getaddrinfo os t host (Some (snprintf_d 6 port))")
  case None
  with assms(1) show ?thesis by (simp add: opensock_def)
next
  case (Some found)
  obtain res rest where found: "found = (res, rest)" by (cases found)
  let ?g = "Getaddrinfo host (Some (snprintf_d 6 port))"
  from opensock_loop_trace [OF assms(2), of os res rest "t @ [?g]"] obtain r sockfd new k
    where l: "opensock_loop os config bind_to res rest (t @ [?g]) = Inr (r, sockfd, (t @ [?g]) @ new)"
      and e: "loop_events (res # rest) (chosen_bind config bind_to) r sockfd new k" by blast
  from assms(1) Some found l
  have "opensock os config host port bind_to t =
      Inr (case r of None \<Rightarrow> - 1 | Some _ \<Rightarrow> sockfd, t @ ?g # new)"
    by (simp add: opensock_def split: option.splits)
  with e Some found show ?thesis by auto
qed

lemma snprintf_d_8080: "snprintf_d 6 8080 = ''8080''"
  by (simp add: snprintf_d_def decimal.simps [of 8080] decimal.simps [of 808]
      decimal.simps [of 80] decimal.simps [of 8] digit_def)

lemma two_candidates_bound_run:
  "opensock two_candidates
       \<lparr>reversepath_list = [], reversemagic = False, reverseonly = False,
        bind_address = Some ''198.51.100.9''\<rparr>
       ''backend'' 8080 (Some ''192.0.2.1'') [] =
     Inr (4, [Getaddrinfo ''backend'' (Some ''8080''),
              Socket 2 1 6 3, Getaddrinfo ''192.0.2.1'' None, Bind 3 ''192.0.2.1:0'' 0,
              Connect 3 ''10.0.0.1:8080'' (- 1), Close 3,
              Socket 10 1 6 4, Getaddrinfo ''192.0.2.1'' None, Bind 4 ''192.0.2.1:0'' 0,
              Connect 4 ''[fd00::2]:8080'' 0])"
  by (simp add: opensock_def snprintf_d_8080 two_candidates_def opensock_body_def
      opensock_connect_def bind_socket_def Let_def)

lemma opensock_order:
  assumes "0 < port"
    and "bind_to \<noteq> Some []"
    and "bind_to = None \<longrightarrow> bind_address config \<noteq> Some []"
  shows "\<exists>fd new. opensock os config host port bind_to t =
             Inr (fd, t @ Getaddrinfo host (Some (snprintf_d 6 port)) # new)
         \<and> (case sys_getaddrinfo os t host (Some (snprintf_d 6 port)) of
              None \<Rightarrow> fd = - 1 \<and> new = []
            | Some (res, rest) \<Rightarrow>
                (\<exists>k. 1 \<le> k \<and> k \<le> length (res # rest)
                   \<and> sockets new = map ai_triple (take k (res # rest))
                   \<and> (if 0 \<le> fd
                      then connected new = [(fd, ai_addr ((res # rest) ! (k - 1)))]
                           \<and> last new = Connect fd (ai_addr ((res # rest) ! (k - 1))) 0
                           \<and> track new [] = Some [fd]
                      else fd = - 1 \<and> k = length (res # rest) \<and> connected new = []
                           \<and> track new [] = Some [])))"
proof -
  from assms(2,3) have "chosen_bind config bind_to \<noteq> Some []"
    by (auto simp: chosen_bind_def split: option.splits)
  from opensock_trace [OF assms(1) this, of os host t] obtain fd new
    where run: "opensock os config host port bind_to t =
             Inr (fd, t @ Getaddrinfo host (Some (snprintf_d 6 port)) # new)"
      and post: "case sys_getaddrinfo os t host (Some (snprintf_d 6 port)) of
              None \<Rightarrow> fd = - 1 \<and> new = []
            | Some (res, rest) \<Rightarrow>
                (\<exists>r sockfd k. loop_events (res # rest) (chosen_bind config bind_to) r sockfd new k
                   \<and> fd = (case r of None \<Rightarrow> - 1 | Some _ \<Rightarrow> sockfd))"
    by blast
  have "case sys_getaddrinfo os t host (Some (snprintf_d 6 port)) of
              None \<Rightarrow> fd = - 1 \<and> new = []
            | Some (res, rest) \<Rightarrow>
                (\<exists>k. 1 \<le> k \<and> k \<le> length (res # rest)
                   \<and> sockets new = map ai_triple (take k (res # rest))
                   \<and> (if 0 \<le> fd
                      then connected new = [(fd, ai_addr ((res # rest) ! (k - 1)))]
                           \<and> last new = Connect fd (ai_addr ((res # rest) ! (k - 1))) 0
                           \<and> track new [] = Some [fd]
                      else fd = - 1 \<and> k = length (res # rest) \<and> connected new = []
                           \<and> track new [] = Some []))"
  proof (cases "sys_getaddrinfo os t host (Some (snprintf_d 6 port))")
    case None
    with post show ?thesis by simp
  next
    case (Some found)
    obtain res rest where found: "found = (res, rest)" by (cases found)
    from post Some found obtain r sockfd k
      where e: "loop_events (res # rest) (chosen_bind config bind_to) r sockfd new k"
        and fd: "fd = (case r of None \<Rightarrow> - 1 | Some _ \<Rightarrow> sockfd)" by auto
    from e have k: "1 \<le> k" "k \<le> length (res # rest)"
      "sockets new = map ai_triple (take k (res # rest))"
      and r: "case r of
              Some c \<Rightarrow> c = (res # rest) ! (k - 1) \<and> 0 \<le> sockfd
                        \<and> connected new = [(sockfd, ai_addr c)]
                        \<and> last new = Connect sockfd (ai_addr c) 0 \<and> track new [] = Some [sockfd]
            | None \<Rightarrow> k = length (res # rest) \<and> connected new = [] \<and> track new [] = Some []"
      unfolding loop_events_def by blast+
    have "if 0 \<le> fd
          then connected new = [(fd, ai_addr ((res # rest) ! (k - 1)))]
               \<and> last new = Connect fd (ai_addr ((res # rest) ! (k - 1))) 0
               \<and> track new [] = Some [fd]
          else fd = - 1 \<and> k = length (res # rest) \<and> connected new = []
               \<and> track new [] = Some []"
      using r fd by (cases r) simp_all
    with k Some found show ?thesis by auto
  qed
  with run show ?thesis by blast
qed

lemma faithful_append:
  "faithful os h (a @ b) \<longleftrightarrow> faithful os h a \<and> faithful os (h @ a) b"
  by (induction a arbitrary: h) auto

lemma bind_loop_shape:
  "bind_loop os sockfd res rest t = (r, t') \<Longrightarrow>
   \<exists>new. t' = t @ new \<and> faithful os t new
     \<and> (\<forall>tail. binds_shape c sockfd (map ai_addr (res # rest)) (new @ tail) =
           (case r of None \<Rightarrow> binds_shape c sockfd [] tail
            | Some x \<Rightarrow> connect_shape c sockfd tail))"
proof (induction rest arbitrary: res t)
  case Nil
  let ?rc = "sys_bind os t sockfd (ai_addr res)"
  let ?e = "Bind sockfd (ai_addr res) ?rc"
  from Nil have r: "r = (if ?rc = 0 then Some res else None)" and t': "t' = t @ [?e]"
    by (auto simp: Let_def split: if_splits)
  have "faithful os t [?e]" by simp
  moreover have "\<forall>tail. binds_shape c sockfd (map ai_addr [res]) ([?e] @ tail) =
           (case r of None \<Rightarrow> binds_shape c sockfd [] tail
            | Some x \<Rightarrow> connect_shape c sockfd tail)"
    by (simp add: r)
  ultimately show ?case using t' by blast
next
  case (Cons a rest)
  let ?rc = "sys_bind os t sockfd (ai_addr res)"
  let ?e = "Bind sockfd (ai_addr res) ?rc"
  show ?case
  proof (cases "?rc = 0")
    case True
    with Cons.prems have r: "r = Some res" and t': "t' = t @ [?e]" by (simp_all add: Let_def)
    have "faithful os t [?e]" by simp
    moreover from True
    have "\<forall>tail. binds_shape c sockfd (map ai_addr (res # a # rest)) ([?e] @ tail) =
           (case r of None \<Rightarrow> binds_shape c sockfd [] tail
            | Some x \<Rightarrow> connect_shape c sockfd tail)"
      by (simp add: r)
    ultimately show ?thesis using t' by blast
  next
    case False
    with Cons.prems have "bind_loop os sockfd a rest (t @ [?e]) = (r, t')"
      by (simp add: Let_def)
    from Cons.IH [OF this] obtain new where new: "t' = (t @ [?e]) @ new"
      "faithful os (t @ [?e]) new"
      "\<forall>tail. binds_shape c sockfd (map ai_addr (a # rest)) (new @ tail) =
           (case r of None \<Rightarrow> binds_shape c sockfd [] tail
            | Some x \<Rightarrow> connect_shape c sockfd tail)"
      by blast
    have 1: "t' = t @ (?e # new)" using new(1) by simp
    have 2: "faithful os t (?e # new)" using new(2) by simp
    from False new(3)
    have 3: "\<forall>tail. binds_shape c sockfd (map ai_addr (res # a # rest)) ((?e # new) @ tail) =
           (case r of None \<Rightarrow> binds_shape c sockfd [] tail
            | Some x \<Rightarrow> connect_shape c sockfd tail)"
      by simp
    from 1 2 3 show ?thesis by blast
  qed
qed

lemma bind_socket_shape:
  assumes "bind_socket os sockfd addr t = Inr (r, t')"
  shows "\<exists>new. t' = t @ Getaddrinfo addr None # new
           \<and> faithful os (t @ [Getaddrinfo addr None]) new
           \<and> (\<forall>tail. binds_shape c sockfd (bind_addresses os t addr) (new @ tail) =
                 (if r < 0 then binds_shape c sockfd [] tail else connect_shape c sockfd tail))"
proof -
  from assms have fd: "0 \<le> sockfd" by (auto simp: bind_socket_def split: if_splits)
  show ?thesis
  proof (cases "sys_getaddrinfo os t addr None")
    case None
    with assms have "r = - 1" "t' = t @ [Getaddrinfo addr None]"
      by (auto simp: bind_socket_def split: if_splits)
    with None show ?thesis by (simp add: bind_addresses_def)
  next
    case (Some found)
    obtain res rest where found: "found = (res, rest)" by (cases found)
    obtain r' t2 where loop: "bind_loop os sockfd res rest (t @ [Getaddrinfo addr None]) = (r', t2)"
      by (cases "bind_loop os sockfd res rest (t @ [Getaddrinfo addr None])")
    from bind_loop_shape [OF loop, of c] obtain new
      where new: "t2 = (t @ [Getaddrinfo addr None]) @ new"
        "faithful os (t @ [Getaddrinfo addr None]) new"
        "\<forall>tail. binds_shape c sockfd (map ai_addr (res # rest)) (new @ tail) =
           (case r' of None \<Rightarrow> binds_shape c sockfd [] tail
            | Some x \<Rightarrow> connect_shape c sockfd tail)"
      by blast
    from assms Some found loop have t': "t' = t2"
      and r: "r = (case r' of None \<Rightarrow> - 1 | Some _ \<Rightarrow> sockfd)"
      by (auto simp: bind_socket_def split: if_splits option.splits)
    from Some found have a: "bind_addresses os t addr = map ai_addr (res # rest)"
      by (simp add: bind_addresses_def)
    have "\<forall>tail. binds_shape c sockfd (bind_addresses os t addr) (new @ tail) =
                 (if r < 0 then binds_shape c sockfd [] tail else connect_shape c sockfd tail)"
      unfolding a using new(3) r fd by (cases r') auto
    with new(1,2) t' show ?thesis by simp
  qed
qed

lemma connect_shape_sockets: "connect_shape c fd es \<Longrightarrow> sockets es = []"
  by (induction c fd es rule: connect_shape.induct) auto

lemma binds_shape_sockets: "binds_shape c fd xs es \<Longrightarrow> sockets es = []"
  by (induction c fd xs es rule: binds_shape.induct)
    (auto simp: connect_shape_sockets split: if_splits)

lemma pass_shape_sockets: "pass_shape os chosen h c es \<Longrightarrow> sockets es = [ai_triple c]"
proof (induction os chosen h c es rule: pass_shape.induct)
  case (1 os chosen h c f ty p fd es)
  then show ?case
    by (auto simp: connect_shape_sockets binds_shape_sockets
        split: if_splits option.splits list.splits event.splits)
qed simp_all

lemma passes_sockets:
  "passes_shape os chosen h cs segs \<Longrightarrow>
   sockets (concat segs) = map ai_triple cs \<and> length segs = length cs"
  by (induction os chosen h cs segs rule: passes_shape.induct)
    (auto simp: sockets_append dest: pass_shape_sockets)

lemma opensock_connect_shape:
  assumes "opensock_connect os fd res t = (fl, sockfd, t')"
  shows "\<exists>new. t' = t @ new \<and> connect_shape res fd new \<and> faithful os t new"
  using assms by (auto simp: opensock_connect_def Let_def split: if_splits)

lemma opensock_body_shape:
  assumes ch: "chosen_bind config bind_to \<noteq> Some []"
    and run: "opensock_body os config bind_to res t = Inr (fl, sockfd, t')"
  shows "\<exists>new. t' = t @ new \<and> pass_shape os (chosen_bind config bind_to) t res new
           \<and> faithful os t new"
proof -
  let ?fd = "sys_socket os t (ai_family res) (ai_socktype res) (ai_protocol res)"
  let ?s = "Socket (ai_family res) (ai_socktype res) (ai_protocol res) ?fd"
  have s: "faithful os t [?s]" by simp
  show ?thesis
  proof (cases "?fd < 0")
    case True
    with run have "t' = t @ [?s]" by (auto simp: opensock_body_chosen Let_def)
    moreover from True have "pass_shape os (chosen_bind config bind_to) t res [?s]"
      by (simp add: ai_triple_def)
    ultimately show ?thesis using s by blast
  next
    case False
    show ?thesis
    proof (cases "chosen_bind config bind_to")
      case None
      from run False None have "opensock_connect os ?fd res (t @ [?s]) = (fl, sockfd, t')"
        by (simp add: opensock_body_chosen Let_def)
      from opensock_connect_shape [OF this] obtain cnew
        where c: "t' = (t @ [?s]) @ cnew" "connect_shape res ?fd cnew"
          "faithful os (t @ [?s]) cnew" by blast
      from c(1) have "t' = t @ (?s # cnew)" by simp
      moreover from False None c(2) have "pass_shape os (chosen_bind config bind_to) t res (?s # cnew)"
        by (simp add: ai_triple_def)
      moreover from c(3) have "faithful os t (?s # cnew)" by simp
      ultimately show ?thesis by blast
    next
      case (Some addr)
      let ?g = "Getaddrinfo addr None"
      from run False Some obtain r t2 where b: "bind_socket os ?fd addr (t @ [?s]) = Inr (r, t2)"
        by (auto simp: opensock_body_chosen Let_def split: sum.splits)
      from bind_socket_shape [OF b, of res] obtain bnew
        where t2: "t2 = (t @ [?s]) @ ?g # bnew"
          and fb: "faithful os ((t @ [?s]) @ [?g]) bnew"
          and sh: "\<And>tail. binds_shape res ?fd (bind_addresses os (t @ [?s]) addr) (bnew @ tail) =
                 (if r < 0 then binds_shape res ?fd [] tail else connect_shape res ?fd tail)"
        by blast
      show ?thesis
      proof (cases "r < 0")
        case True
        with run False Some b have "t' = t2 @ [Close ?fd]"
          by (auto simp: opensock_body_chosen Let_def)
        with t2 have 1: "t' = t @ (?s # ?g # bnew @ [Close ?fd])" by simp
        from True have "binds_shape res ?fd (bind_addresses os (t @ [?s]) addr) (bnew @ [Close ?fd])"
          by (simp add: sh)
        with False Some
        have 2: "pass_shape os (chosen_bind config bind_to) t res (?s # ?g # bnew @ [Close ?fd])"
          by (simp add: ai_triple_def)
        from fb have 3: "faithful os t (?s # ?g # bnew @ [Close ?fd])"
          by (simp add: faithful_append)
        from 1 2 3 show ?thesis by blast
      next
        case r: False
        with run False Some b have "opensock_connect os ?fd res t2 = (fl, sockfd, t')"
          by (simp add: opensock_body_chosen Let_def)
        from opensock_connect_shape [OF this] obtain cnew
          where c: "t' = t2 @ cnew" "connect_shape res ?fd cnew" "faithful os t2 cnew" by blast
        from c(1) t2 have 1: "t' = t @ (?s # ?g # bnew @ cnew)" by simp
        from r c(2) have "binds_shape res ?fd (bind_addresses os (t @ [?s]) addr) (bnew @ cnew)"
          by (simp add: sh)
        with False Some
        have 2: "pass_shape os (chosen_bind config bind_to) t res (?s # ?g # bnew @ cnew)"
          by (simp add: ai_triple_def)
        from fb c(3) t2 have 3: "faithful os t (?s # ?g # bnew @ cnew)"
          by (simp add: faithful_append)
        from 1 2 3 show ?thesis by blast
      qed
    qed
  qed
qed

lemma opensock_loop_shape:
  assumes ch: "chosen_bind config bind_to \<noteq> Some []"
  shows "opensock_loop os config bind_to res rest t = Inr (r, sockfd, t') \<Longrightarrow>
         \<exists>segs. t' = t @ concat segs
           \<and> passes_shape os (chosen_bind config bind_to) t
                (take (length segs) (res # rest)) segs
           \<and> faithful os t (concat segs)"
proof (induction rest arbitrary: res t)
  case Nil
  then obtain fl s t'' where b: "opensock_body os config bind_to res t = Inr (fl, s, t'')"
    and t': "t' = t''"
    by (auto split: sum.splits flow.splits)
  from opensock_body_shape [OF ch b] t' obtain new where "t' = t @ new"
    "pass_shape os (chosen_bind config bind_to) t res new" "faithful os t new" by blast
  then have "t' = t @ concat [new]"
    "passes_shape os (chosen_bind config bind_to) t (take (length [new]) [res]) [new]"
    "faithful os t (concat [new])" by simp_all
  then show ?case by blast
next
  case (Cons a rest)
  from Cons.prems obtain fl s t'' where b: "opensock_body os config bind_to res t = Inr (fl, s, t'')"
    by (auto split: sum.splits)
  from opensock_body_shape [OF ch b] obtain new where new: "t'' = t @ new"
    "pass_shape os (chosen_bind config bind_to) t res new" "faithful os t new" by blast
  show ?case
  proof (cases fl)
    case Break
    with Cons.prems b have "t' = t''" by simp
    with new have "t' = t @ concat [new]"
      "passes_shape os (chosen_bind config bind_to) t (take (length [new]) (res # a # rest)) [new]"
      "faithful os t (concat [new])" by simp_all
    then show ?thesis by blast
  next
    case Next
    with Cons.prems b have "opensock_loop os config bind_to a rest t'' = Inr (r, sockfd, t')"
      by simp
    from Cons.IH [OF this] obtain segs where segs: "t' = t'' @ concat segs"
      "passes_shape os (chosen_bind config bind_to) t'' (take (length segs) (a # rest)) segs"
      "faithful os t'' (concat segs)" by blast
    from segs(1) new(1) have 1: "t' = t @ concat (new # segs)" by simp
    from segs(2) new(1,2)
    have 2: "passes_shape os (chosen_bind config bind_to) t
        (take (length (new # segs)) (res # a # rest)) (new # segs)" by simp
    from segs(3) new(1,3) have 3: "faithful os t (concat (new # segs))"
      by (simp add: faithful_append)
    from 1 2 3 show ?thesis by blast
  qed
qed

lemma opensock_shape:
  assumes ch: "chosen_bind config bind_to \<noteq> Some []"
    and run: "opensock os config host port bind_to t =
        Inr (fd, t @ Getaddrinfo host (Some (snprintf_d 6 port)) # new)"
    and res: "sys_getaddrinfo os t host (Some (snprintf_d 6 port)) = Some (res, rest)"
  shows "\<exists>segs. new = concat segs
           \<and> passes_shape os (chosen_bind config bind_to)
                (t @ [Getaddrinfo host (Some (snprintf_d 6 port))])
                (take (length segs) (res # rest)) segs
           \<and> faithful os (t @ [Getaddrinfo host (Some (snprintf_d 6 port))]) new"
proof -
  let ?g = "Getaddrinfo host (Some (snprintf_d 6 port))"
  from run res obtain r sockfd t' where l: "opensock_loop os config bind_to res rest (t @ [?g]) =
      Inr (r, sockfd, t')" and t': "t' = t @ ?g # new"
    by (auto simp: opensock_def Let_def split: if_splits sum.splits option.splits)
  from opensock_loop_shape [OF ch l] obtain segs where segs: "t' = (t @ [?g]) @ concat segs"
    "passes_shape os (chosen_bind config bind_to) (t @ [?g]) (take (length segs) (res # rest)) segs"
    "faithful os (t @ [?g]) (concat segs)" by blast
  from segs(1) t' have "new = concat segs" by simp
  with segs(2,3) show ?thesis by blast
qed

lemma four_candidates_run:
  "opensock four_candidates
       \<lparr>reversepath_list = [], reversemagic = False, reverseonly = False, bind_address = None\<rparr>
       ''backend'' 8080 (Some ''192.0.2.1'') [] =
     Inr (6, [Getaddrinfo ''backend'' (Some ''8080''),
         Socket 99 1 6 (- 1),
         Socket 2 1 6 4, Getaddrinfo ''192.0.2.1'' None, Bind 4 ''192.0.2.1:0'' (- 1),
          Bind 4 ''192.0.2.2:0'' (- 1), Close 4,
         Socket 2 1 6 5, Getaddrinfo ''192.0.2.1'' None, Bind 5 ''192.0.2.1:0'' (- 1),
          Bind 5 ''192.0.2.2:0'' 0, Connect 5 ''10.0.0.2:8080'' (- 1), Close 5,
         Socket 10 1 6 6, Getaddrinfo ''192.0.2.1'' None, Bind 6 ''192.0.2.1:0'' 0,
          Connect 6 ''[fd00::2]:8080'' 0])"
  by (simp add: opensock_def snprintf_d_8080 four_candidates_def opensock_body_def
      opensock_connect_def bind_socket_def Let_def)

lemma four_candidates_unbound_run:
  "opensock four_candidates
       \<lparr>reversepath_list = [], reversemagic = False, reverseonly = False,
        bind_address = Some ''203.0.113.9''\<rparr>
       ''backend'' 8080 None [] =
     Inr (- 1, [Getaddrinfo ''backend'' (Some ''8080''),
         Socket 99 1 6 (- 1),
         Socket 2 1 6 4, Getaddrinfo ''203.0.113.9'' None, Close 4,
         Socket 2 1 6 5, Getaddrinfo ''203.0.113.9'' None, Close 5,
         Socket 10 1 6 6, Getaddrinfo ''203.0.113.9'' None, Close 6])"
  by (simp add: opensock_def snprintf_d_8080 four_candidates_def opensock_body_def
      opensock_connect_def bind_socket_def Let_def)

lemma four_candidates_shapes:
  "passes_shape four_candidates (Some ''192.0.2.1'') [Getaddrinfo ''backend'' (Some ''8080'')]
        [\<lparr>ai_family = 99, ai_socktype = 1, ai_protocol = 6, ai_addr = ''unsupported''\<rparr>,
         \<lparr>ai_family = 2, ai_socktype = 1, ai_protocol = 6, ai_addr = ''10.0.0.1:8080''\<rparr>,
         \<lparr>ai_family = 2, ai_socktype = 1, ai_protocol = 6, ai_addr = ''10.0.0.2:8080''\<rparr>,
         \<lparr>ai_family = 10, ai_socktype = 1, ai_protocol = 6, ai_addr = ''[fd00::2]:8080''\<rparr>]
        [[Socket 99 1 6 (- 1)],
         [Socket 2 1 6 4, Getaddrinfo ''192.0.2.1'' None, Bind 4 ''192.0.2.1:0'' (- 1),
          Bind 4 ''192.0.2.2:0'' (- 1), Close 4],
         [Socket 2 1 6 5, Getaddrinfo ''192.0.2.1'' None, Bind 5 ''192.0.2.1:0'' (- 1),
          Bind 5 ''192.0.2.2:0'' 0, Connect 5 ''10.0.0.2:8080'' (- 1), Close 5],
         [Socket 10 1 6 6, Getaddrinfo ''192.0.2.1'' None, Bind 6 ''192.0.2.1:0'' 0,
          Connect 6 ''[fd00::2]:8080'' 0]]"
  "passes_shape four_candidates (Some ''203.0.113.9'') [Getaddrinfo ''backend'' (Some ''8080'')]
        [\<lparr>ai_family = 99, ai_socktype = 1, ai_protocol = 6, ai_addr = ''unsupported''\<rparr>,
         \<lparr>ai_family = 2, ai_socktype = 1, ai_protocol = 6, ai_addr = ''10.0.0.1:8080''\<rparr>,
         \<lparr>ai_family = 2, ai_socktype = 1, ai_protocol = 6, ai_addr = ''10.0.0.2:8080''\<rparr>,
         \<lparr>ai_family = 10, ai_socktype = 1, ai_protocol = 6, ai_addr = ''[fd00::2]:8080''\<rparr>]
        [[Socket 99 1 6 (- 1)],
         [Socket 2 1 6 4, Getaddrinfo ''203.0.113.9'' None, Close 4],
         [Socket 2 1 6 5, Getaddrinfo ''203.0.113.9'' None, Close 5],
         [Socket 10 1 6 6, Getaddrinfo ''203.0.113.9'' None, Close 6]]"
  "faithful four_candidates [Getaddrinfo ''backend'' (Some ''8080'')]
        [Socket 99 1 6 (- 1),
         Socket 2 1 6 4, Getaddrinfo ''192.0.2.1'' None, Bind 4 ''192.0.2.1:0'' (- 1),
          Bind 4 ''192.0.2.2:0'' (- 1), Close 4,
         Socket 2 1 6 5, Getaddrinfo ''192.0.2.1'' None, Bind 5 ''192.0.2.1:0'' (- 1),
          Bind 5 ''192.0.2.2:0'' 0, Connect 5 ''10.0.0.2:8080'' (- 1), Close 5,
         Socket 10 1 6 6, Getaddrinfo ''192.0.2.1'' None, Bind 6 ''192.0.2.1:0'' 0,
          Connect 6 ''[fd00::2]:8080'' 0]"
  by (simp_all add: ai_triple_def bind_addresses_def four_candidates_def)

text \<open>
  Claim C8.  \<^verbatim>\<open>opensock\<close> resolves the host and goes through the candidates in the
  order of the resolution, one pass each.  In a pass a candidate is skipped when
  \<^verbatim>\<open>socket\<close> fails; when the bind fails the socket is closed and no \<^verbatim>\<open>connect\<close>
  is made; when \<^verbatim>\<open>connect\<close> fails the socket is closed; and each time the next
  candidate is tried.  A descriptor is returned only as the result of the one
  \<^verbatim>\<open>connect\<close> that succeeded, which is the last call, for the last candidate tried,
  with every other socket closed and whatever failed before.  \<open>-1\<close> is returned when
  the resolution fails, and otherwise only after every candidate has had its pass, no
  \<^verbatim>\<open>connect\<close> has succeeded and every socket is closed again.  The return values in the
  trace are those of the environment.  The preconditions are the assertions of
  \<^verbatim>\<open>opensock\<close> and \<^verbatim>\<open>bind_socket\<close>.
\<close>

theorem opensock_first_success:
  assumes "0 < port"
    and "bind_to \<noteq> Some []"
    and "bind_to = None \<longrightarrow> bind_address config \<noteq> Some []"
  shows "\<exists>fd new. opensock os config host port bind_to t =
             Inr (fd, t @ Getaddrinfo host (Some (snprintf_d 6 port)) # new)
         \<and> (case sys_getaddrinfo os t host (Some (snprintf_d 6 port)) of
              None \<Rightarrow> fd = - 1 \<and> new = []
            | Some (res, rest) \<Rightarrow>
                (\<exists>k segs. 1 \<le> k \<and> k \<le> length (res # rest)
                   \<and> sockets new = map ai_triple (take k (res # rest))
                   \<and> length segs = k \<and> new = concat segs
                   \<and> passes_shape os (chosen_bind config bind_to)
                        (t @ [Getaddrinfo host (Some (snprintf_d 6 port))])
                        (take k (res # rest)) segs
                   \<and> faithful os (t @ [Getaddrinfo host (Some (snprintf_d 6 port))]) new
                   \<and> (if 0 \<le> fd
                      then connected new = [(fd, ai_addr ((res # rest) ! (k - 1)))]
                           \<and> last new = Connect fd (ai_addr ((res # rest) ! (k - 1))) 0
                           \<and> track new [] = Some [fd]
                      else fd = - 1 \<and> k = length (res # rest) \<and> connected new = []
                           \<and> track new [] = Some [])))"
proof -
  from assms(2,3) have ch: "chosen_bind config bind_to \<noteq> Some []"
    by (auto simp: chosen_bind_def split: option.splits)
  from opensock_order [OF assms, of os host t] obtain fd new
    where run: "opensock os config host port bind_to t =
             Inr (fd, t @ Getaddrinfo host (Some (snprintf_d 6 port)) # new)"
      and post: "case sys_getaddrinfo os t host (Some (snprintf_d 6 port)) of
              None \<Rightarrow> fd = - 1 \<and> new = []
            | Some (res, rest) \<Rightarrow>
                (\<exists>k. 1 \<le> k \<and> k \<le> length (res # rest)
                   \<and> sockets new = map ai_triple (take k (res # rest))
                   \<and> (if 0 \<le> fd
                      then connected new = [(fd, ai_addr ((res # rest) ! (k - 1)))]
                           \<and> last new = Connect fd (ai_addr ((res # rest) ! (k - 1))) 0
                           \<and> track new [] = Some [fd]
                      else fd = - 1 \<and> k = length (res # rest) \<and> connected new = []
                           \<and> track new [] = Some []))"
    by blast
  have "case sys_getaddrinfo os t host (Some (snprintf_d 6 port)) of
              None \<Rightarrow> fd = - 1 \<and> new = []
            | Some (res, rest) \<Rightarrow>
                (\<exists>k segs. 1 \<le> k \<and> k \<le> length (res # rest)
                   \<and> sockets new = map ai_triple (take k (res # rest))
                   \<and> length segs = k \<and> new = concat segs
                   \<and> passes_shape os (chosen_bind config bind_to)
                        (t @ [Getaddrinfo host (Some (snprintf_d 6 port))])
                        (take k (res # rest)) segs
                   \<and> faithful os (t @ [Getaddrinfo host (Some (snprintf_d 6 port))]) new
                   \<and> (if 0 \<le> fd
                      then connected new = [(fd, ai_addr ((res # rest) ! (k - 1)))]
                           \<and> last new = Connect fd (ai_addr ((res # rest) ! (k - 1))) 0
                           \<and> track new [] = Some [fd]
                      else fd = - 1 \<and> k = length (res # rest) \<and> connected new = []
                           \<and> track new [] = Some []))"
  proof (cases "sys_getaddrinfo os t host (Some (snprintf_d 6 port))")
    case None
    with post show ?thesis by simp
  next
    case (Some found)
    obtain res rest where found: "found = (res, rest)" by (cases found)
    from post Some found obtain k where k: "1 \<le> k" "k \<le> length (res # rest)"
      "sockets new = map ai_triple (take k (res # rest))"
      and out: "if 0 \<le> fd
          then connected new = [(fd, ai_addr ((res # rest) ! (k - 1)))]
               \<and> last new = Connect fd (ai_addr ((res # rest) ! (k - 1))) 0
               \<and> track new [] = Some [fd]
          else fd = - 1 \<and> k = length (res # rest) \<and> connected new = []
               \<and> track new [] = Some []"
      by auto
    from Some found have "sys_getaddrinfo os t host (Some (snprintf_d 6 port)) = Some (res, rest)"
      by simp
    from opensock_shape [OF ch run this] obtain segs where segs: "new = concat segs"
      "passes_shape os (chosen_bind config bind_to)
         (t @ [Getaddrinfo host (Some (snprintf_d 6 port))])
         (take (length segs) (res # rest)) segs"
      and f: "faithful os (t @ [Getaddrinfo host (Some (snprintf_d 6 port))]) new"
      by blast
    from passes_sockets [OF segs(2)] segs(1)
    have "sockets new = map ai_triple (take (length segs) (res # rest))"
      and len: "length segs = length (take (length segs) (res # rest))" by simp_all
    then have "length (sockets new) = length segs" by simp
    moreover from k(2,3) have "length (sockets new) = k" by simp
    ultimately have lk: "length segs = k" by simp
    from segs(2) lk have sh: "passes_shape os (chosen_bind config bind_to)
        (t @ [Getaddrinfo host (Some (snprintf_d 6 port))]) (take k (res # rest)) segs" by simp
    have "1 \<le> k \<and> k \<le> length (res # rest)
        \<and> sockets new = map ai_triple (take k (res # rest))
        \<and> length segs = k \<and> new = concat segs
        \<and> passes_shape os (chosen_bind config bind_to)
             (t @ [Getaddrinfo host (Some (snprintf_d 6 port))]) (take k (res # rest)) segs
        \<and> faithful os (t @ [Getaddrinfo host (Some (snprintf_d 6 port))]) new
        \<and> (if 0 \<le> fd
            then connected new = [(fd, ai_addr ((res # rest) ! (k - 1)))]
                 \<and> last new = Connect fd (ai_addr ((res # rest) ! (k - 1))) 0
                 \<and> track new [] = Some [fd]
            else fd = - 1 \<and> k = length (res # rest) \<and> connected new = []
                 \<and> track new [] = Some [])"
      using k(1) k(2) k(3) lk segs(1) sh f out by (intro conjI)
    then have "\<exists>k segs. 1 \<le> k \<and> k \<le> length (res # rest)
        \<and> sockets new = map ai_triple (take k (res # rest))
        \<and> length segs = k \<and> new = concat segs
        \<and> passes_shape os (chosen_bind config bind_to)
             (t @ [Getaddrinfo host (Some (snprintf_d 6 port))]) (take k (res # rest)) segs
        \<and> faithful os (t @ [Getaddrinfo host (Some (snprintf_d 6 port))]) new
        \<and> (if 0 \<le> fd
            then connected new = [(fd, ai_addr ((res # rest) ! (k - 1)))]
                 \<and> last new = Connect fd (ai_addr ((res # rest) ! (k - 1))) 0
                 \<and> track new [] = Some [fd]
            else fd = - 1 \<and> k = length (res # rest) \<and> connected new = []
                 \<and> track new [] = Some [])"
      by (intro exI)
    with Some found show ?thesis by simp
  qed
  with run show ?thesis by blast
qed

theorem opensock_first_success_witness:
  "opensock four_candidates
       \<lparr>reversepath_list = [], reversemagic = False, reverseonly = False, bind_address = None\<rparr>
       ''backend'' 8080 (Some ''192.0.2.1'') [] =
     Inr (6, [Getaddrinfo ''backend'' (Some ''8080''),
         Socket 99 1 6 (- 1),
         Socket 2 1 6 4, Getaddrinfo ''192.0.2.1'' None, Bind 4 ''192.0.2.1:0'' (- 1),
          Bind 4 ''192.0.2.2:0'' (- 1), Close 4,
         Socket 2 1 6 5, Getaddrinfo ''192.0.2.1'' None, Bind 5 ''192.0.2.1:0'' (- 1),
          Bind 5 ''192.0.2.2:0'' 0, Connect 5 ''10.0.0.2:8080'' (- 1), Close 5,
         Socket 10 1 6 6, Getaddrinfo ''192.0.2.1'' None, Bind 6 ''192.0.2.1:0'' 0,
          Connect 6 ''[fd00::2]:8080'' 0])
   \<and> passes_shape four_candidates (Some ''192.0.2.1'') [Getaddrinfo ''backend'' (Some ''8080'')]
        [\<lparr>ai_family = 99, ai_socktype = 1, ai_protocol = 6, ai_addr = ''unsupported''\<rparr>,
         \<lparr>ai_family = 2, ai_socktype = 1, ai_protocol = 6, ai_addr = ''10.0.0.1:8080''\<rparr>,
         \<lparr>ai_family = 2, ai_socktype = 1, ai_protocol = 6, ai_addr = ''10.0.0.2:8080''\<rparr>,
         \<lparr>ai_family = 10, ai_socktype = 1, ai_protocol = 6, ai_addr = ''[fd00::2]:8080''\<rparr>]
        [[Socket 99 1 6 (- 1)],
         [Socket 2 1 6 4, Getaddrinfo ''192.0.2.1'' None, Bind 4 ''192.0.2.1:0'' (- 1),
          Bind 4 ''192.0.2.2:0'' (- 1), Close 4],
         [Socket 2 1 6 5, Getaddrinfo ''192.0.2.1'' None, Bind 5 ''192.0.2.1:0'' (- 1),
          Bind 5 ''192.0.2.2:0'' 0, Connect 5 ''10.0.0.2:8080'' (- 1), Close 5],
         [Socket 10 1 6 6, Getaddrinfo ''192.0.2.1'' None, Bind 6 ''192.0.2.1:0'' 0,
          Connect 6 ''[fd00::2]:8080'' 0]]
   \<and> faithful four_candidates [Getaddrinfo ''backend'' (Some ''8080'')]
        [Socket 99 1 6 (- 1),
         Socket 2 1 6 4, Getaddrinfo ''192.0.2.1'' None, Bind 4 ''192.0.2.1:0'' (- 1),
          Bind 4 ''192.0.2.2:0'' (- 1), Close 4,
         Socket 2 1 6 5, Getaddrinfo ''192.0.2.1'' None, Bind 5 ''192.0.2.1:0'' (- 1),
          Bind 5 ''192.0.2.2:0'' 0, Connect 5 ''10.0.0.2:8080'' (- 1), Close 5,
         Socket 10 1 6 6, Getaddrinfo ''192.0.2.1'' None, Bind 6 ''192.0.2.1:0'' 0,
          Connect 6 ''[fd00::2]:8080'' 0]
   \<and> opensock four_candidates
       \<lparr>reversepath_list = [], reversemagic = False, reverseonly = False,
        bind_address = Some ''203.0.113.9''\<rparr>
       ''backend'' 8080 None [] =
     Inr (- 1, [Getaddrinfo ''backend'' (Some ''8080''),
         Socket 99 1 6 (- 1),
         Socket 2 1 6 4, Getaddrinfo ''203.0.113.9'' None, Close 4,
         Socket 2 1 6 5, Getaddrinfo ''203.0.113.9'' None, Close 5,
         Socket 10 1 6 6, Getaddrinfo ''203.0.113.9'' None, Close 6])
   \<and> passes_shape four_candidates (Some ''203.0.113.9'') [Getaddrinfo ''backend'' (Some ''8080'')]
        [\<lparr>ai_family = 99, ai_socktype = 1, ai_protocol = 6, ai_addr = ''unsupported''\<rparr>,
         \<lparr>ai_family = 2, ai_socktype = 1, ai_protocol = 6, ai_addr = ''10.0.0.1:8080''\<rparr>,
         \<lparr>ai_family = 2, ai_socktype = 1, ai_protocol = 6, ai_addr = ''10.0.0.2:8080''\<rparr>,
         \<lparr>ai_family = 10, ai_socktype = 1, ai_protocol = 6, ai_addr = ''[fd00::2]:8080''\<rparr>]
        [[Socket 99 1 6 (- 1)],
         [Socket 2 1 6 4, Getaddrinfo ''203.0.113.9'' None, Close 4],
         [Socket 2 1 6 5, Getaddrinfo ''203.0.113.9'' None, Close 5],
         [Socket 10 1 6 6, Getaddrinfo ''203.0.113.9'' None, Close 6]]"
proof -
  let ?c = "\<lparr>reversepath_list = [], reversemagic = False, reverseonly = False, bind_address = None\<rparr>"
  let ?d = "\<lparr>reversepath_list = [], reversemagic = False, reverseonly = False,
        bind_address = Some ''203.0.113.9''\<rparr>"
  have p: "(0::int) < 8080" by simp
  have b1: "Some ''192.0.2.1'' \<noteq> Some []"
    and c1: "Some ''192.0.2.1'' = None \<longrightarrow> bind_address ?c \<noteq> Some []" by simp_all
  have b2: "(None :: string option) \<noteq> Some []"
    and c2: "(None :: string option) = None \<longrightarrow> bind_address ?d \<noteq> Some []" by simp_all
  from opensock_first_success [OF p b1 c1, of four_candidates "''backend''" "[]"]
    opensock_first_success [OF p b2 c2, of four_candidates "''backend''" "[]"]
  show ?thesis
    by - (intro conjI four_candidates_run four_candidates_unbound_run four_candidates_shapes)
qed

text \<open>
  Claim C9, as stated, fails: when the peer address and its numeric string are obtained
  and \<^verbatim>\<open>getnameinfo\<close> fails, \<^verbatim>\<open>getpeer_information\<close> returns the error code of
  \<^verbatim>\<open>getnameinfo\<close>, although the numeric address is reported and the host name is the
  sentinel.
\<close>

theorem getpeer_information_lookup_error:
  "sys_getpeername three_peers 5 = Some ''198.51.100.7''
   \<and> get_ip_string three_peers ''198.51.100.7'' 48 = Some ''198.51.100.7''
   \<and> sys_getnameinfo three_peers ''198.51.100.7'' 1024 = Inl (- 2)
   \<and> getpeer_information three_peers 48 1024 5 [] [] =
       Inr (- 2, ''198.51.100.7'', ''[unknown]'')"
  by (simp add: getpeer_information_def three_peers_def strlcpy_def)

text \<open>
  Claim C9, amended.  \<^verbatim>\<open>getpeer_information\<close> stores the sentinel \<open>[unknown]\<close> as
  host name before any lookup, so it is what every failure leaves there.  The call returns
  \<open>-1\<close> when the peer address or its numeric string cannot be obtained.  Otherwise it
  reports the numeric address and returns what \<^verbatim>\<open>getnameinfo\<close> returns: zero with the
  host name, or the error code of the lookup with the sentinel.
\<close>

theorem getpeer_information_outcomes:
  assumes "0 \<le> fd" and "10 \<le> HOSTNAME_LENGTH"
  shows "(sys_getpeername os fd = None
            \<or> (\<exists>sa. sys_getpeername os fd = Some sa \<and> get_ip_string os sa IP_LENGTH = None)
          \<longrightarrow> getpeer_information os IP_LENGTH HOSTNAME_LENGTH fd ipaddr string_addr =
                Inr (- 1, [], ''[unknown]''))
       \<and> (\<forall>sa ip. sys_getpeername os fd = Some sa \<and> get_ip_string os sa IP_LENGTH = Some ip
            \<longrightarrow> (\<forall>rc. sys_getnameinfo os sa HOSTNAME_LENGTH = Inl rc
                    \<longrightarrow> getpeer_information os IP_LENGTH HOSTNAME_LENGTH fd ipaddr string_addr =
                          Inr (rc, ip, ''[unknown]''))
               \<and> (\<forall>name. sys_getnameinfo os sa HOSTNAME_LENGTH = Inr name
                    \<longrightarrow> getpeer_information os IP_LENGTH HOSTNAME_LENGTH fd ipaddr string_addr =
                          Inr (0, ip, name)))"
proof -
  from assms(2) have s: "strlcpy string_addr ''[unknown]'' HOSTNAME_LENGTH = ''[unknown]''"
    by (simp add: strlcpy_def)
  from assms(1) show ?thesis
    by (auto simp: getpeer_information_def s)
qed

theorem getpeer_information_outcomes_witness:
  "getpeer_information three_peers 48 1024 6 [] [] = Inr (- 1, [], ''[unknown]'')
   \<and> getpeer_information three_peers 48 1024 5 [] [] = Inr (- 2, ''198.51.100.7'', ''[unknown]'')
   \<and> getpeer_information three_peers 48 1024 7 [] [] = Inr (0, ''192.0.2.10'', ''client.example'')"
proof -
  have l: "(10::nat) \<le> 1024" by simp
  have f6: "(0::int) \<le> 6" and f5: "(0::int) \<le> 5" and f7: "(0::int) \<le> 7" by simp_all
  have a: "sys_getpeername three_peers 6 = None"
    and b: "sys_getpeername three_peers 5 = Some ''198.51.100.7''"
      "get_ip_string three_peers ''198.51.100.7'' 48 = Some ''198.51.100.7''"
      "sys_getnameinfo three_peers ''198.51.100.7'' 1024 = Inl (- 2)"
    and c: "sys_getpeername three_peers 7 = Some ''192.0.2.10''"
      "get_ip_string three_peers ''192.0.2.10'' 48 = Some ''192.0.2.10''"
      "sys_getnameinfo three_peers ''192.0.2.10'' 1024 = Inr ''client.example''"
    by (simp_all add: three_peers_def)
  from getpeer_information_outcomes [OF f6 l, of three_peers 48 "[]" "[]"] a
  have 1: "getpeer_information three_peers 48 1024 6 [] [] = Inr (- 1, [], ''[unknown]'')"
    by blast
  from getpeer_information_outcomes [OF f5 l, of three_peers 48 "[]" "[]"] b
  have 2: "getpeer_information three_peers 48 1024 5 [] [] =
      Inr (- 2, ''198.51.100.7'', ''[unknown]'')"
    by blast
  from getpeer_information_outcomes [OF f7 l, of three_peers 48 "[]" "[]"] c
  have 3: "getpeer_information three_peers 48 1024 7 [] [] =
      Inr (0, ''192.0.2.10'', ''client.example'')"
    by blast
  from 1 2 3 show ?thesis by blast
qed

text \<open>
  Claim C10.  With a \<^verbatim>\<open>bind_to\<close> argument \<^verbatim>\<open>opensock\<close> does not depend on
  \<^verbatim>\<open>config.bind_address\<close>; without one it behaves as if \<^verbatim>\<open>config.bind_address\<close>
  had been the argument.  The only name that \<^verbatim>\<open>bind_socket\<close> resolves in a call is the
  argument if there is one and the configured address otherwise, at most once for each
  socket that is created.
\<close>

theorem opensock_bind_source:
  "opensock os (config\<lparr>bind_address := d\<rparr>) host port (Some addr) t =
     opensock os config host port (Some addr) t
   \<and> opensock os config host port None t =
       opensock os (config\<lparr>bind_address := None\<rparr>) host port (bind_address config) t
   \<and> (0 < port \<and> bind_to \<noteq> Some [] \<and> (bind_to = None \<longrightarrow> bind_address config \<noteq> Some []) \<longrightarrow>
        (\<exists>fd new. opensock os config host port bind_to t = Inr (fd, t @ new)
           \<and> set (bind_lookups new)
               \<subseteq> (case bind_to of Some a \<Rightarrow> {a} | None \<Rightarrow> set_option (bind_address config))
           \<and> length (bind_lookups new) \<le> length (sockets new)))"
proof (intro conjI impI)
  show "opensock os (config\<lparr>bind_address := d\<rparr>) host port (Some addr) t =
     opensock os config host port (Some addr) t"
    by (rule opensock_cong) (simp add: chosen_bind_def)
next
  show "opensock os config host port None t =
       opensock os (config\<lparr>bind_address := None\<rparr>) host port (bind_address config) t"
    by (rule opensock_cong) (simp add: chosen_bind_def split: option.splits)
next
  assume a: "0 < port \<and> bind_to \<noteq> Some [] \<and> (bind_to = None \<longrightarrow> bind_address config \<noteq> Some [])"
  then have port: "0 < port" and ch: "chosen_bind config bind_to \<noteq> Some []"
    by (auto simp: chosen_bind_def split: option.splits)
  let ?g = "Getaddrinfo host (Some (snprintf_d 6 port))"
  from opensock_trace [OF port ch, of os host t] obtain fd new
    where run: "opensock os config host port bind_to t = Inr (fd, t @ ?g # new)"
      and post: "case sys_getaddrinfo os t host (Some (snprintf_d 6 port)) of
              None \<Rightarrow> fd = - 1 \<and> new = []
            | Some (res, rest) \<Rightarrow>
                (\<exists>r sockfd k. loop_events (res # rest) (chosen_bind config bind_to) r sockfd new k
                   \<and> fd = (case r of None \<Rightarrow> - 1 | Some _ \<Rightarrow> sockfd))"
    by blast
  have sub: "set (bind_lookups new) \<subseteq> set_option (chosen_bind config bind_to)
      \<and> length (bind_lookups new) \<le> length (sockets new)"
  proof (cases "sys_getaddrinfo os t host (Some (snprintf_d 6 port))")
    case None
    with post show ?thesis by simp
  next
    case (Some found)
    obtain res rest where found: "found = (res, rest)" by (cases found)
    from post Some found obtain r sockfd k
      where "loop_events (res # rest) (chosen_bind config bind_to) r sockfd new k" by auto
    then have "k \<le> length (res # rest)"
      "sockets new = map ai_triple (take k (res # rest))"
      "set (bind_lookups new) \<subseteq> set_option (chosen_bind config bind_to)"
      "length (bind_lookups new) \<le> k"
      unfolding loop_events_def by blast+
    then show ?thesis by simp
  qed
  have "set_option (chosen_bind config bind_to) =
      (case bind_to of Some a \<Rightarrow> {a} | None \<Rightarrow> set_option (bind_address config))"
    by (simp add: chosen_bind_def split: option.splits)
  with sub have "set (bind_lookups (?g # new))
               \<subseteq> (case bind_to of Some a \<Rightarrow> {a} | None \<Rightarrow> set_option (bind_address config))
           \<and> length (bind_lookups (?g # new)) \<le> length (sockets (?g # new))"
    by simp
  with run show "\<exists>fd new. opensock os config host port bind_to t = Inr (fd, t @ new)
           \<and> set (bind_lookups new)
               \<subseteq> (case bind_to of Some a \<Rightarrow> {a} | None \<Rightarrow> set_option (bind_address config))
           \<and> length (bind_lookups new) \<le> length (sockets new)"
    by blast
qed

theorem opensock_bind_source_witness:
  "opensock two_candidates
       \<lparr>reversepath_list = [], reversemagic = False, reverseonly = False,
        bind_address = Some ''198.51.100.9''\<rparr>
       ''backend'' 8080 (Some ''192.0.2.1'') [] =
     Inr (4, [Getaddrinfo ''backend'' (Some ''8080''),
              Socket 2 1 6 3, Getaddrinfo ''192.0.2.1'' None, Bind 3 ''192.0.2.1:0'' 0,
              Connect 3 ''10.0.0.1:8080'' (- 1), Close 3,
              Socket 10 1 6 4, Getaddrinfo ''192.0.2.1'' None, Bind 4 ''192.0.2.1:0'' 0,
              Connect 4 ''[fd00::2]:8080'' 0])
   \<and> (\<exists>fd new. opensock two_candidates
       \<lparr>reversepath_list = [], reversemagic = False, reverseonly = False,
        bind_address = Some ''198.51.100.9''\<rparr>
       ''backend'' 8080 (Some ''192.0.2.1'') [] = Inr (fd, new)
       \<and> set (bind_lookups new) \<subseteq> {''192.0.2.1''} \<and> length (bind_lookups new) \<le> length (sockets new))"
proof -
  let ?c = "\<lparr>reversepath_list = [], reversemagic = False, reverseonly = False,
              bind_address = Some ''198.51.100.9''\<rparr>"
  have h: "(0::int) < 8080 \<and> Some ''192.0.2.1'' \<noteq> Some []
      \<and> (Some ''192.0.2.1'' = None \<longrightarrow> bind_address ?c \<noteq> Some [])" by simp
  from opensock_bind_source [where os = two_candidates and config = ?c and host = "''backend''"
      and port = 8080 and t = "[]" and bind_to = "Some ''192.0.2.1''"] h
  show ?thesis by (simp add: two_candidates_bound_run)
qed

end
